theory Spec2Isabelle
  imports Complex_Main
begin

section \<open>JavaScript numbers and the currency table\<close>

text \<open>
  Amounts, balances and scores are JavaScript numbers. The model keeps every finite
  number as an exact rational and adds the one special value the handlers can produce:
  \<open>NaN\<close>, which arises when a rate is looked up for a key that is not in
  \<open>CURRENCY_RATES\<close> (the lookup gives \<open>undefined\<close>, and arithmetic with it gives
  \<open>NaN\<close>) or when \<open>parseInt\<close> finds no leading digits.  Every comparison with
  \<open>NaN\<close> is false, also \<open>===\<close>.
\<close>

datatype jsnum = Num rat | NaN

fun js_add :: "jsnum \<Rightarrow> jsnum \<Rightarrow> jsnum" where
  "js_add (Num a) (Num b) = Num (a + b)"
| "js_add _ _ = NaN"

fun js_sub :: "jsnum \<Rightarrow> jsnum \<Rightarrow> jsnum" where
  "js_sub (Num a) (Num b) = Num (a - b)"
| "js_sub _ _ = NaN"

fun js_lt :: "jsnum \<Rightarrow> jsnum \<Rightarrow> bool" where
  "js_lt (Num a) (Num b) = (a < b)"
| "js_lt _ _ = False"

fun js_gt :: "jsnum \<Rightarrow> jsnum \<Rightarrow> bool" where
  "js_gt (Num a) (Num b) = (a > b)"
| "js_gt _ _ = False"

fun js_seq :: "jsnum \<Rightarrow> jsnum \<Rightarrow> bool" where
  "js_seq (Num a) (Num b) = (a = b)"
| "js_seq _ _ = False"

text \<open>\<open>Math.round\<close>: the nearest integer, a tie going up.\<close>

definition Math_round :: "rat \<Rightarrow> int" where
  "Math_round x = \<lfloor>x + 1 / 2\<rfloor>"

text \<open>\<open>Math.max(0, x)\<close>.\<close>

fun Math_max0 :: "jsnum \<Rightarrow> jsnum" where
  "Math_max0 (Num a) = Num (max 0 a)"
| "Math_max0 NaN = NaN"

definition CURRENCY_RATES :: "(string \<times> rat) list" where
  "CURRENCY_RATES =
     [(''INR'', 1), (''USD'', 12 / 1000), (''EUR'', 11 / 1000), (''GBP'', 95 / 10000),
      (''CNY'', 86 / 1000), (''JPY'', 18 / 10), (''KRW'', 162 / 10), (''BRL'', 62 / 1000),
      (''RUB'', 11 / 10), (''AED'', 44 / 1000), (''SAR'', 45 / 1000), (''CAD'', 16 / 1000),
      (''AUD'', 18 / 1000)]"

definition rate_of :: "string \<Rightarrow> rat option" where
  "rate_of c = map_of CURRENCY_RATES c"

text \<open>\<open>Object.keys(CURRENCY_RATES)\<close>, the list the validators check against.\<close>

definition currency_keys :: "string list" where
  "currency_keys = map fst CURRENCY_RATES"

text \<open>
  \<open>convertCurrency(amount, from, to)\<close>:
  \<open>Math.round(amount / RATES[from] * RATES[to] * 100) / 100\<close>.
  No rate of the table is zero, so the division is the source's.
\<close>

definition convertCurrency :: "jsnum \<Rightarrow> string \<Rightarrow> string \<Rightarrow> jsnum" where
  "convertCurrency amount fromCurrency toCurrency =
     (case amount of
        NaN \<Rightarrow> NaN
      | Num a \<Rightarrow>
          (case rate_of fromCurrency of
             None \<Rightarrow> NaN
           | Some rf \<Rightarrow>
               (case rate_of toCurrency of
                  None \<Rightarrow> NaN
                | Some rt \<Rightarrow> Num (of_int (Math_round (a / rf * rt * 100)) / 100))))"

section \<open>Match system (match.js)\<close>

record game_config =
  g_name :: string
  g_duration :: nat
  g_maxPlayers :: nat
  g_betAmount :: rat
  g_split_winner :: rat
  g_split_platform :: rat

definition GAME_CONFIGS :: "(string \<times> game_config) list" where
  "GAME_CONFIGS =
     [(''chess'', \<lparr>g_name = ''Chess Master'', g_duration = 60, g_maxPlayers = 2,
         g_betAmount = 10, g_split_winner = 16, g_split_platform = 4\<rparr>),
      (''snakeLadder'', \<lparr>g_name = ''Snake & Ladder'', g_duration = 60, g_maxPlayers = 2,
         g_betAmount = 10, g_split_winner = 16, g_split_platform = 4\<rparr>),
      (''carrom'', \<lparr>g_name = ''Carrom Board'', g_duration = 60, g_maxPlayers = 2,
         g_betAmount = 10, g_split_winner = 16, g_split_platform = 4\<rparr>)]"

datatype player_status = connected | disconnected

record player =
  p_id :: string
  p_score :: jsnum
  p_status :: player_status
  p_lastUpdate :: "nat option"

datatype match_status = m_starting | m_completed | m_cancelled

datatype payout_type = win | loss | refund

record payout_entry =
  po_playerId :: string
  po_amount :: jsnum
  po_type :: payout_type

datatype result_type = r_draw | r_win | r_cancelled

record match_result =
  r_type :: result_type
  r_winner :: "string option"
  r_payouts :: "payout_entry list"
  r_platformEarnings :: jsnum

record match =
  m_id :: string
  m_gameType :: string
  m_currency :: string
  m_betAmount :: jsnum
  m_players :: "player list"
  m_status :: match_status
  m_startTime :: nat
  m_duration :: nat
  m_payout_winner :: jsnum
  m_payout_platform :: jsnum
  m_endTime :: "nat option"
  m_result :: "match_result option"
  m_cancelledBy :: "string option"

record waiting_player =
  w_id :: string
  w_timestamp :: nat

text \<open>
  The three module-level maps.  \<open>activeMatches\<close> is kept as an association list in
  insertion order, because \<open>POST /find\<close> takes the first match, in the map's iteration
  order, that holds the player.
\<close>

record match_state =
  activeMatches :: "(string \<times> match) list"
  waitingPlayers :: "string \<rightharpoonup> waiting_player list"
  matchHistory :: "string \<rightharpoonup> match"

text \<open>\<open>Map.prototype.set\<close>: an existing key keeps its place, a new one goes last.\<close>

fun map_set :: "string \<Rightarrow> 'v \<Rightarrow> (string \<times> 'v) list \<Rightarrow> (string \<times> 'v) list" where
  "map_set k v [] = [(k, v)]"
| "map_set k v ((k', v') # kvs) =
     (if k' = k then (k, v) # kvs else (k', v') # map_set k v kvs)"

definition map_delete :: "string \<Rightarrow> (string \<times> 'v) list \<Rightarrow> (string \<times> 'v) list" where
  "map_delete k kvs = filter (\<lambda>kv. fst kv \<noteq> k) kvs"

text \<open>The error codes the handlers answer with (one type for the three modules).\<close>

datatype api_error =
  VALIDATION_FAILED | MATCH_NOT_FOUND | MATCH_ALREADY_COMPLETED | PLAYER_NOT_IN_MATCH
  | MATCH_COMPLETE_ERROR
  | PAYMENT_METHOD_NOT_SUPPORTED | AMOUNT_OUT_OF_RANGE | WALLET_NOT_FOUND
  | INSUFFICIENT_BALANCE | KYC_REQUIRED | WITHDRAWAL_NOT_SUPPORTED
  | INVALID_WITHDRAWAL_DETAILS | WITHDRAWAL_FREQUENCY_EXCEEDED | WITHDRAWAL_NOT_FOUND
  | UNAUTHORIZED_CANCELLATION | CANCELLATION_NOT_ALLOWED | WITHDRAWAL_NOT_IN_QUEUE

datatype find_response =
  ExistingMatch string match_status
  | MatchFound string string jsnum
  | Waiting nat

definition game_types :: "string list" where
  "game_types = [''chess'', ''snakeLadder'', ''carrom'']"

definition waitingKey :: "string \<Rightarrow> string \<Rightarrow> string" where
  "waitingKey gameType currency = gameType @ ''_'' @ currency"

text \<open>The match object that \<open>POST /find\<close> builds for a player and the opponent found.\<close>

definition new_match ::
  "string \<Rightarrow> nat \<Rightarrow> string \<Rightarrow> string \<Rightarrow> game_config \<Rightarrow> string \<Rightarrow> string \<Rightarrow> match" where
  "new_match mid now gameType currency gameConfig playerId opponentId =
     \<lparr>m_id = mid, m_gameType = gameType, m_currency = currency,
      m_betAmount = convertCurrency (Num (g_betAmount gameConfig)) ''INR'' currency,
      m_players =
        [\<lparr>p_id = playerId, p_score = Num 0, p_status = connected, p_lastUpdate = None\<rparr>,
         \<lparr>p_id = opponentId, p_score = Num 0, p_status = connected, p_lastUpdate = None\<rparr>],
      m_status = m_starting, m_startTime = now, m_duration = g_duration gameConfig,
      m_payout_winner = convertCurrency (Num (g_split_winner gameConfig)) ''INR'' currency,
      m_payout_platform = convertCurrency (Num (g_split_platform gameConfig)) ''INR'' currency,
      m_endTime = None, m_result = None, m_cancelledBy = None\<rparr>"

text \<open>\<open>match.players.some(p => p.id === playerId)\<close>.\<close>

definition in_match :: "string \<Rightarrow> match \<Rightarrow> bool" where
  "in_match playerId m = (\<exists>p \<in> set (m_players m). p_id p = playerId)"

text \<open>
  \<open>POST /find\<close>.  \<open>mid\<close> is the identifier \<open>generateMatchId()\<close> returns and \<open>now\<close> the
  value of \<open>Date.now()\<close>; the body's \<open>currency\<close> is optional and defaults to INR.
\<close>

definition find_match ::
  "string \<Rightarrow> nat \<Rightarrow> string \<Rightarrow> string \<Rightarrow> string option \<Rightarrow> match_state
     \<Rightarrow> (api_error + find_response) \<times> match_state" where
  "find_match mid now gameType playerId currencyOpt s =
     (if gameType \<notin> set game_types \<or> playerId = []
         \<or> (case currencyOpt of None \<Rightarrow> False | Some c \<Rightarrow> c \<notin> set currency_keys)
      then (Inl VALIDATION_FAILED, s)
      else
        let currency = (case currencyOpt of None \<Rightarrow> ''INR'' | Some c \<Rightarrow> c) in
        (case map_of GAME_CONFIGS gameType of
           None \<Rightarrow> (Inl VALIDATION_FAILED, s)
         | Some gameConfig \<Rightarrow>
           (case find (in_match playerId) (map snd (activeMatches s)) of
              Some existingMatch \<Rightarrow>
                (Inr (ExistingMatch (m_id existingMatch) (m_status existingMatch)), s)
            | None \<Rightarrow>
                (case waitingPlayers s (waitingKey gameType currency) of
                   Some (opponent # rest) \<Rightarrow>
                     let m = new_match mid now gameType currency gameConfig playerId
                               (w_id opponent)
                     in (Inr (MatchFound mid (w_id opponent) (m_betAmount m)),
                         s\<lparr>activeMatches := map_set mid m (activeMatches s),
                           waitingPlayers :=
                             (if rest = []
                              then (waitingPlayers s) (waitingKey gameType currency := None)
                              else (waitingPlayers s) (waitingKey gameType currency \<mapsto> rest))\<rparr>)
                 | _ \<Rightarrow>
                     let waitingList =
                           (case waitingPlayers s (waitingKey gameType currency) of
                              None \<Rightarrow> [] | Some l \<Rightarrow> l)
                           @ [\<lparr>w_id = playerId, w_timestamp = now\<rparr>]
                     in (Inr (Waiting (length waitingList)),
                         s\<lparr>waitingPlayers :=
                             (waitingPlayers s) (waitingKey gameType currency \<mapsto> waitingList)\<rparr>)))))"

text \<open>The route parameter check \<open>/^match_[a-zA-Z0-9]{8}$/\<close>.\<close>

definition alnum :: "char \<Rightarrow> bool" where
  "alnum c = (c \<in> set ''abcdefghijklmnopqrstuvwxyzABCDEFGHIJKLMNOPQRSTUVWXYZ0123456789'')"

definition valid_matchId :: "string \<Rightarrow> bool" where
  "valid_matchId x = (take 6 x = ''match_'' \<and> length x = 14 \<and> list_all alnum (drop 6 x))"

text \<open>\<open>Array.prototype.findIndex\<close>, with \<open>None\<close> for \<open>-1\<close>.\<close>

fun findIndex :: "('a \<Rightarrow> bool) \<Rightarrow> 'a list \<Rightarrow> nat option" where
  "findIndex P [] = None"
| "findIndex P (x # xs) =
     (if P x then Some 0 else (case findIndex P xs of None \<Rightarrow> None | Some i \<Rightarrow> Some (Suc i)))"

text \<open>
  \<open>POST /:matchId/score\<close>.  \<open>parsed\<close> is the value of \<open>parseInt(score)\<close> for the
  validated body field: an integer, or \<open>NaN\<close> for a numeric string such as \<open>".5"\<close>.
\<close>

definition submit_score ::
  "nat \<Rightarrow> string \<Rightarrow> string \<Rightarrow> jsnum \<Rightarrow> match_state \<Rightarrow> (api_error + match_status) \<times> match_state" where
  "submit_score now matchId playerId parsed s =
     (if \<not> valid_matchId matchId \<or> playerId = [] then (Inl VALIDATION_FAILED, s)
      else
        (case map_of (activeMatches s) matchId of
           None \<Rightarrow> (Inl MATCH_NOT_FOUND, s)
         | Some m \<Rightarrow>
             (case findIndex (\<lambda>p. p_id p = playerId) (m_players m) of
                None \<Rightarrow> (Inl PLAYER_NOT_IN_MATCH, s)
              | Some playerIndex \<Rightarrow>
                  let pl = (m_players m ! playerIndex)
                             \<lparr>p_score := Math_max0 parsed, p_lastUpdate := Some now\<rparr>;
                      m' = m\<lparr>m_players := (m_players m)[playerIndex := pl]\<rparr>
                  in (Inr (m_status m'),
                      s\<lparr>activeMatches := map_set matchId m' (activeMatches s)\<rparr>))))"

text \<open>
  \<open>[...match.players].sort((a, b) => b.score - a.score)\<close>: a stable sort in which \<open>a\<close>
  goes before an earlier \<open>b\<close> only when the comparator is negative; a \<open>NaN\<close> result
  counts as zero.
\<close>

definition score_cmp_neg :: "player \<Rightarrow> player \<Rightarrow> bool" where
  "score_cmp_neg a b = js_lt (js_sub (p_score b) (p_score a)) (Num 0)"

fun sort_insert :: "player \<Rightarrow> player list \<Rightarrow> player list" where
  "sort_insert x [] = [x]"
| "sort_insert x (y # ys) =
     (if score_cmp_neg x y then x # y # ys else y # sort_insert x ys)"

definition sort_players :: "player list \<Rightarrow> player list" where
  "sort_players ps = foldl (\<lambda>acc x. sort_insert x acc) [] ps"

text \<open>
  The settlement computed by \<open>POST /:matchId/complete\<close> from the two players at the
  head of the sorted list.
\<close>

definition settle :: "match \<Rightarrow> player \<Rightarrow> player \<Rightarrow> match_result" where
  "settle m winner loser =
     (if js_seq (p_score winner) (p_score loser)
      then \<lparr>r_type = r_draw, r_winner = None,
             r_payouts =
               [\<lparr>po_playerId = p_id winner, po_amount = m_betAmount m, po_type = refund\<rparr>,
                \<lparr>po_playerId = p_id loser, po_amount = m_betAmount m, po_type = refund\<rparr>],
             r_platformEarnings = Num 0\<rparr>
      else \<lparr>r_type = r_win, r_winner = Some (p_id winner),
             r_payouts =
               [\<lparr>po_playerId = p_id winner, po_amount = m_payout_winner m, po_type = win\<rparr>,
                \<lparr>po_playerId = p_id loser, po_amount = Num 0, po_type = loss\<rparr>],
             r_platformEarnings = m_payout_platform m\<rparr>)"

text \<open>
  \<open>POST /:matchId/complete\<close>.  Reading \<open>.score\<close> of a missing second player throws, and
  the handler's \<open>catch\<close> answers 500 before anything has been written.
\<close>

definition complete_match ::
  "nat \<Rightarrow> string \<Rightarrow> match_state \<Rightarrow> (api_error + match_result) \<times> match_state" where
  "complete_match now matchId s =
     (if \<not> valid_matchId matchId then (Inl VALIDATION_FAILED, s)
      else
        (case map_of (activeMatches s) matchId of
           None \<Rightarrow> (Inl MATCH_NOT_FOUND, s)
         | Some m \<Rightarrow>
             if m_status m = m_completed then (Inl MATCH_ALREADY_COMPLETED, s)
             else
               (case sort_players (m_players m) of
                  winner # loser # _ \<Rightarrow>
                    let result = settle m winner loser;
                        m' = m\<lparr>m_status := m_completed, m_endTime := Some now,
                               m_result := Some result\<rparr>
                    in (Inr result,
                        s\<lparr>matchHistory := (matchHistory s) (matchId \<mapsto> m'),
                          activeMatches := map_delete matchId (activeMatches s)\<rparr>)
                | _ \<Rightarrow> (Inl MATCH_COMPLETE_ERROR, s))))"

text \<open>\<open>POST /:matchId/cancel\<close>: both players get their bet back.\<close>

definition cancel_match ::
  "nat \<Rightarrow> string \<Rightarrow> string \<Rightarrow> match_state \<Rightarrow> (api_error + match_result) \<times> match_state" where
  "cancel_match now matchId playerId s =
     (if \<not> valid_matchId matchId \<or> playerId = [] then (Inl VALIDATION_FAILED, s)
      else
        (case map_of (activeMatches s) matchId of
           None \<Rightarrow> (Inl MATCH_NOT_FOUND, s)
         | Some m \<Rightarrow>
             if \<not> in_match playerId m then (Inl PLAYER_NOT_IN_MATCH, s)
             else
               let refundResult =
                     \<lparr>r_type = r_cancelled, r_winner = None,
                      r_payouts =
                        map (\<lambda>p. \<lparr>po_playerId = p_id p, po_amount = m_betAmount m,
                                   po_type = refund\<rparr>) (m_players m),
                      r_platformEarnings = Num 0\<rparr>;
                   m' = m\<lparr>m_status := m_cancelled, m_endTime := Some now,
                          m_cancelledBy := Some playerId, m_result := Some refundResult\<rparr>
               in (Inr refundResult,
                   s\<lparr>matchHistory := (matchHistory s) (matchId \<mapsto> m'),
                     activeMatches := map_delete matchId (activeMatches s)\<rparr>)))"

definition init_match_state :: match_state where
  "init_match_state = \<lparr>activeMatches = [], waitingPlayers = Map.empty, matchHistory = Map.empty\<rparr>"

text \<open>The operations of the match module, and a run of them from the empty maps.\<close>

datatype match_op =
  Find string nat string string "string option"
  | Score nat string string jsnum
  | Complete nat string
  | CancelMatch nat string string

fun match_step :: "match_op \<Rightarrow> match_state \<Rightarrow> match_state" where
  "match_step (Find mid now gameType playerId currencyOpt) s =
     snd (find_match mid now gameType playerId currencyOpt s)"
| "match_step (Score now matchId playerId parsed) s =
     snd (submit_score now matchId playerId parsed s)"
| "match_step (Complete now matchId) s = snd (complete_match now matchId s)"
| "match_step (CancelMatch now matchId playerId) s = snd (cancel_match now matchId playerId s)"

definition match_run :: "match_op list \<Rightarrow> match_state" where
  "match_run ops = foldl (\<lambda>s op. match_step op s) init_match_state ops"

text \<open>A stored match with two player entries, a positive bet amount and the 60 second window.\<close>

definition two_player_match :: "match \<Rightarrow> bool" where
  "two_player_match m \<longleftrightarrow>
     length (m_players m) = 2 \<and> m_duration m = 60 \<and> js_gt (m_betAmount m) (Num 0)"

definition stored_ok :: "match_state \<Rightarrow> bool" where
  "stored_ok s \<longleftrightarrow> (\<forall>km \<in> set (activeMatches s). two_player_match (snd km))
                 \<and> (\<forall>m \<in> ran (matchHistory s). two_player_match m)"

section \<open>Wallet system (wallet.js)\<close>

datatype kyc = kyc_pending | kyc_verified | kyc_rejected

record wallet =
  wal_userId :: string
  wal_balance :: jsnum
  wal_currency :: string
  wal_totalDeposits :: jsnum
  wal_totalWithdrawals :: jsnum
  wal_totalWinnings :: jsnum
  wal_kycStatus :: kyc
  wal_createdAt :: nat
  wal_lastActivity :: nat

datatype tx_type = tx_deposit | tx_withdrawal | tx_win

datatype tx_status = tx_processing | tx_completed | tx_failed | tx_pending

record transaction =
  tx_id :: string
  tx_userId :: string
  tx_kind :: tx_type
  tx_amount :: jsnum
  tx_netAmount :: "jsnum option"
  tx_currency :: string
  tx_fees :: "jsnum option"
  tx_gateway :: "string option"
  tx_method :: "string option"
  tx_state :: tx_status
  tx_timestamp :: nat
  tx_completedAt :: "nat option"
  tx_matchId :: "string option"

record developer_wallet =
  dev_balance :: jsnum
  dev_totalEarnings :: jsnum

text \<open>
  What the callback that \<open>POST /deposit\<close> hands to \<open>setTimeout\<close> has captured.  The
  wallet it holds is the object stored under \<open>userId\<close>: a stored wallet is never
  replaced or removed.
\<close>

record deposit_timer =
  dt_transactionId :: string
  dt_userId :: string
  dt_currency :: string
  dt_netAmount :: jsnum

record wallet_state =
  userWallets :: "string \<rightharpoonup> wallet"
  transactions :: "string \<rightharpoonup> transaction"
  pendingWithdrawals :: "string \<rightharpoonup> transaction"
  developerWallet :: developer_wallet
  depositTimers :: "deposit_timer list"

definition init_wallet_state :: wallet_state where
  "init_wallet_state =
     \<lparr>userWallets = Map.empty, transactions = Map.empty, pendingWithdrawals = Map.empty,
      developerWallet = \<lparr>dev_balance = Num 45280, dev_totalEarnings = Num 125840\<rparr>,
      depositTimers = []\<rparr>"

record payment_gateway =
  pg_name :: string
  pg_currencies :: "string list"
  pg_methods :: "string list"
  pg_minDeposit :: rat
  pg_maxDeposit :: rat
  pg_fees :: rat

definition PAYMENT_GATEWAYS :: "(string \<times> payment_gateway) list" where
  "PAYMENT_GATEWAYS =
     [(''razorpay'', \<lparr>pg_name = ''Razorpay'', pg_currencies = [''INR''],
         pg_methods = [''UPI'', ''Cards'', ''NetBanking'', ''Wallets''],
         pg_minDeposit = 10, pg_maxDeposit = 100000, pg_fees = 2 / 100\<rparr>),
      (''stripe'', \<lparr>pg_name = ''Stripe'',
         pg_currencies = [''USD'', ''EUR'', ''GBP'', ''CAD'', ''AUD''],
         pg_methods = [''Cards'', ''Digital Wallets''],
         pg_minDeposit = 1, pg_maxDeposit = 50000, pg_fees = 29 / 1000\<rparr>),
      (''alipay'', \<lparr>pg_name = ''Alipay'', pg_currencies = [''CNY''],
         pg_methods = [''Alipay'', ''WeChat Pay''],
         pg_minDeposit = 10, pg_maxDeposit = 50000, pg_fees = 15 / 1000\<rparr>),
      (''pix'', \<lparr>pg_name = ''PIX'', pg_currencies = [''BRL''],
         pg_methods = [''PIX'', ''Credit Cards''],
         pg_minDeposit = 5, pg_maxDeposit = 25000, pg_fees = 1 / 100\<rparr>)]"

definition createWallet :: "nat \<Rightarrow> string \<Rightarrow> string \<Rightarrow> wallet" where
  "createWallet now userId currency =
     \<lparr>wal_userId = userId, wal_balance = Num 0, wal_currency = currency,
      wal_totalDeposits = Num 0, wal_totalWithdrawals = Num 0, wal_totalWinnings = Num 0,
      wal_kycStatus = kyc_pending, wal_createdAt = now, wal_lastActivity = now\<rparr>"

definition validateKYC :: "jsnum \<Rightarrow> string \<Rightarrow> kyc \<Rightarrow> bool" where
  "validateKYC amount currency kycStatus =
     (let limitINR = convertCurrency amount currency ''INR''
      in \<not> (js_gt limitINR (Num 10000) \<and> kycStatus \<noteq> kyc_verified))"

record wallet_info =
  wi_userId :: string
  wi_balance :: jsnum
  wi_currency :: string
  wi_nativeBalance :: jsnum
  wi_nativeCurrency :: string
  wi_totalDeposits :: jsnum
  wi_totalWithdrawals :: jsnum
  wi_totalWinnings :: jsnum
  wi_kycStatus :: kyc
  wi_lastActivity :: nat

text \<open>
  \<open>let wallet = userWallets.get(userId); if (!wallet) { wallet = createWallet(...);
  userWallets.set(userId, wallet) }\<close>, as three handlers do.
\<close>

definition get_or_create :: "nat \<Rightarrow> string \<Rightarrow> string \<Rightarrow> wallet_state \<Rightarrow> wallet \<times> wallet_state" where
  "get_or_create now userId currency s =
     (case userWallets s userId of
        Some w \<Rightarrow> (w, s)
      | None \<Rightarrow>
          let w = createWallet now userId currency
          in (w, s\<lparr>userWallets := (userWallets s) (userId \<mapsto> w)\<rparr>))"

text \<open>
  \<open>GET /:userId\<close>.  The \<open>currency\<close> of the query string is not validated: any string
  reaches \<open>createWallet\<close> and \<open>convertCurrency\<close>.
\<close>

definition get_wallet ::
  "nat \<Rightarrow> string \<Rightarrow> string option \<Rightarrow> wallet_state \<Rightarrow> (api_error + wallet_info) \<times> wallet_state" where
  "get_wallet now userId currencyOpt s =
     (if userId = [] then (Inl VALIDATION_FAILED, s)
      else
        let currency = (case currencyOpt of None \<Rightarrow> ''INR'' | Some c \<Rightarrow> c);
            (wallet, s') = get_or_create now userId currency s;
            displayBalance =
              (if wal_currency wallet = currency then wal_balance wallet
               else convertCurrency (wal_balance wallet) (wal_currency wallet) currency)
        in (Inr \<lparr>wi_userId = wal_userId wallet, wi_balance = displayBalance,
                  wi_currency = currency, wi_nativeBalance = wal_balance wallet,
                  wi_nativeCurrency = wal_currency wallet,
                  wi_totalDeposits = wal_totalDeposits wallet,
                  wi_totalWithdrawals = wal_totalWithdrawals wallet,
                  wi_totalWinnings = wal_totalWinnings wallet,
                  wi_kycStatus = wal_kycStatus wallet,
                  wi_lastActivity = wal_lastActivity wallet\<rparr>, s'))"

definition deposit_methods :: "string list" where
  "deposit_methods = [''UPI'', ''Cards'', ''NetBanking'', ''Wallets'', ''PIX'', ''Alipay'']"

definition withdraw_methods :: "string list" where
  "withdraw_methods = [''UPI'', ''BankTransfer'', ''Cards'', ''PIX'', ''Alipay'']"

text \<open>\<open>Math.round(amount * gateway.fees * 100) / 100\<close>.\<close>

definition gateway_fee :: "rat \<Rightarrow> rat \<Rightarrow> rat" where
  "gateway_fee amount fees = of_int (Math_round (amount * fees * 100)) / 100"

text \<open>
  \<open>POST /deposit\<close>, up to the response: the wallet is fetched or created before the
  gateway is looked up, the transaction is stored as processing and the callback is
  queued.  \<open>tid\<close> is what \<open>generateTransactionId()\<close> returns.
\<close>

definition deposit ::
  "nat \<Rightarrow> string \<Rightarrow> string \<Rightarrow> rat \<Rightarrow> string \<Rightarrow> string \<Rightarrow> wallet_state
     \<Rightarrow> (api_error + transaction) \<times> wallet_state" where
  "deposit now tid userId amount currency paymentMethod s =
     (if userId = [] \<or> amount < 1 \<or> currency \<notin> set currency_keys
         \<or> paymentMethod \<notin> set deposit_methods
      then (Inl VALIDATION_FAILED, s)
      else
        let (wallet, s1) = get_or_create now userId currency s in
        (case find (\<lambda>(key, config). currency \<in> set (pg_currencies config)
                                       \<and> paymentMethod \<in> set (pg_methods config))
                   PAYMENT_GATEWAYS of
           None \<Rightarrow> (Inl PAYMENT_METHOD_NOT_SUPPORTED, s1)
         | Some (key, gateway) \<Rightarrow>
             if amount < pg_minDeposit gateway \<or> amount > pg_maxDeposit gateway
             then (Inl AMOUNT_OUT_OF_RANGE, s1)
             else
               let fees = gateway_fee amount (pg_fees gateway);
                   netAmount = amount - fees;
                   tx = \<lparr>tx_id = tid, tx_userId = userId, tx_kind = tx_deposit,
                          tx_amount = Num amount, tx_netAmount = Some (Num netAmount),
                          tx_currency = currency, tx_fees = Some (Num fees),
                          tx_gateway = Some key, tx_method = Some paymentMethod,
                          tx_state = tx_processing, tx_timestamp = now,
                          tx_completedAt = None, tx_matchId = None\<rparr>
               in (Inr tx,
                   s1\<lparr>transactions := (transactions s1) (tid \<mapsto> tx),
                      depositTimers := depositTimers s1 @
                        [\<lparr>dt_transactionId = tid, dt_userId = userId, dt_currency = currency,
                          dt_netAmount = Num netAmount\<rparr>]\<rparr>)))"

text \<open>
  The deposit callback, three seconds later: the oldest pending one fires.  It marks the
  transaction completed and credits the wallet in the wallet's own currency.
\<close>

definition deposit_callback :: "nat \<Rightarrow> wallet_state \<Rightarrow> wallet_state" where
  "deposit_callback now s =
     (case depositTimers s of
        [] \<Rightarrow> s
      | t # ts \<Rightarrow>
          (case userWallets s (dt_userId t) of
             None \<Rightarrow> s\<lparr>depositTimers := ts\<rparr>
           | Some wallet \<Rightarrow>
               let walletAmount =
                     (if dt_currency t = wal_currency wallet then dt_netAmount t
                      else convertCurrency (dt_netAmount t) (dt_currency t) (wal_currency wallet));
                   wallet' = wallet\<lparr>wal_balance := js_add (wal_balance wallet) walletAmount,
                                    wal_totalDeposits :=
                                      js_add (wal_totalDeposits wallet) walletAmount,
                                    wal_lastActivity := now\<rparr>
               in s\<lparr>depositTimers := ts,
                    transactions :=
                      (case transactions s (dt_transactionId t) of
                         None \<Rightarrow> transactions s
                       | Some tx \<Rightarrow> (transactions s) (dt_transactionId t \<mapsto>
                                       tx\<lparr>tx_state := tx_completed, tx_completedAt := Some now\<rparr>)),
                    userWallets := (userWallets s) (dt_userId t \<mapsto> wallet')\<rparr>))"

text \<open>
  \<open>POST /withdraw\<close>.  The balance check is \<open>wallet.balance < walletAmount\<close>; the amount
  is taken from the balance only after the KYC and gateway checks have passed.
\<close>

definition withdraw ::
  "nat \<Rightarrow> string \<Rightarrow> string \<Rightarrow> rat \<Rightarrow> string option \<Rightarrow> string \<Rightarrow> wallet_state
     \<Rightarrow> (api_error + transaction) \<times> wallet_state" where
  "withdraw now tid userId amount currencyOpt withdrawalMethod s =
     (if userId = [] \<or> amount < 1
         \<or> (case currencyOpt of None \<Rightarrow> False | Some c \<Rightarrow> c \<notin> set currency_keys)
         \<or> withdrawalMethod \<notin> set withdraw_methods
      then (Inl VALIDATION_FAILED, s)
      else
        (case userWallets s userId of
           None \<Rightarrow> (Inl WALLET_NOT_FOUND, s)
         | Some wallet \<Rightarrow>
             let withdrawCurrency =
                   (case currencyOpt of None \<Rightarrow> wal_currency wallet
                    | Some c \<Rightarrow> if c = [] then wal_currency wallet else c);
                 walletAmount =
                   (if withdrawCurrency = wal_currency wallet then Num amount
                    else convertCurrency (Num amount) withdrawCurrency (wal_currency wallet))
             in
               if js_lt (wal_balance wallet) walletAmount then (Inl INSUFFICIENT_BALANCE, s)
               else if \<not> validateKYC (Num amount) withdrawCurrency (wal_kycStatus wallet)
               then (Inl KYC_REQUIRED, s)
               else
                 (case find (\<lambda>(key, config). withdrawCurrency \<in> set (pg_currencies config))
                            PAYMENT_GATEWAYS of
                    None \<Rightarrow> (Inl WITHDRAWAL_NOT_SUPPORTED, s)
                  | Some (key, gateway) \<Rightarrow>
                      let fees = gateway_fee amount (pg_fees gateway);
                          netAmount = amount - fees;
                          withdrawal =
                            \<lparr>tx_id = tid, tx_userId = userId, tx_kind = tx_withdrawal,
                             tx_amount = Num amount, tx_netAmount = Some (Num netAmount),
                             tx_currency = withdrawCurrency, tx_fees = Some (Num fees),
                             tx_gateway = Some key, tx_method = Some withdrawalMethod,
                             tx_state = tx_pending, tx_timestamp = now,
                             tx_completedAt = None, tx_matchId = None\<rparr>
                      in (Inr withdrawal,
                          s\<lparr>transactions := (transactions s) (tid \<mapsto> withdrawal),
                            pendingWithdrawals := (pendingWithdrawals s) (tid \<mapsto> withdrawal),
                            userWallets := (userWallets s) (userId \<mapsto>
                              wallet\<lparr>wal_balance := js_sub (wal_balance wallet) walletAmount,
                                     wal_lastActivity := now\<rparr>)\<rparr>))))"

record winnings_response =
  wr_transactionId :: string
  wr_winnerBalance :: jsnum
  wr_currency :: string
  wr_platformEarnings :: jsnum

text \<open>\<open>POST /process-winnings\<close>.\<close>

definition process_winnings ::
  "nat \<Rightarrow> string \<Rightarrow> string \<Rightarrow> string \<Rightarrow> rat \<Rightarrow> string \<Rightarrow> rat \<Rightarrow> wallet_state
     \<Rightarrow> (api_error + winnings_response) \<times> wallet_state" where
  "process_winnings now tid matchId winner amount currency platformFee s =
     (if matchId = [] \<or> winner = [] \<or> amount < 0 \<or> currency \<notin> set currency_keys
         \<or> platformFee < 0
      then (Inl VALIDATION_FAILED, s)
      else
        let (winnerWallet, s1) = get_or_create now winner currency s;
            walletAmount =
              (if currency = wal_currency winnerWallet then Num amount
               else convertCurrency (Num amount) currency (wal_currency winnerWallet));
            winnerWallet' =
              winnerWallet\<lparr>wal_balance := js_add (wal_balance winnerWallet) walletAmount,
                            wal_totalWinnings :=
                              js_add (wal_totalWinnings winnerWallet) walletAmount,
                            wal_lastActivity := now\<rparr>;
            winTransaction =
              \<lparr>tx_id = tid, tx_userId = winner, tx_kind = tx_win, tx_amount = walletAmount,
               tx_netAmount = None, tx_currency = wal_currency winnerWallet, tx_fees = None,
               tx_gateway = None, tx_method = None, tx_state = tx_completed,
               tx_timestamp = now, tx_completedAt = None, tx_matchId = Some matchId\<rparr>;
            developerFeeINR = convertCurrency (Num platformFee) currency ''INR'';
            dw = developerWallet s1
        in (Inr \<lparr>wr_transactionId = tid, wr_winnerBalance = wal_balance winnerWallet',
                  wr_currency = wal_currency winnerWallet',
                  wr_platformEarnings = developerFeeINR\<rparr>,
            s1\<lparr>userWallets := (userWallets s1) (winner \<mapsto> winnerWallet'),
               transactions := (transactions s1) (tid \<mapsto> winTransaction),
               developerWallet :=
                 dw\<lparr>dev_balance := js_add (dev_balance dw) developerFeeINR,
                    dev_totalEarnings := js_add (dev_totalEarnings dw) developerFeeINR\<rparr>\<rparr>))"

text \<open>The operations of the wallet module, and a run of them from the empty maps.\<close>

datatype wallet_op =
  GetWallet nat string "string option"
  | Deposit nat string string rat string string
  | DepositCallback nat
  | Withdraw nat string string rat "string option" string
  | ProcessWinnings nat string string string rat string rat

fun wallet_step :: "wallet_op \<Rightarrow> wallet_state \<Rightarrow> wallet_state" where
  "wallet_step (GetWallet now userId currencyOpt) s = snd (get_wallet now userId currencyOpt s)"
| "wallet_step (Deposit now tid userId amount currency paymentMethod) s =
     snd (deposit now tid userId amount currency paymentMethod s)"
| "wallet_step (DepositCallback now) s = deposit_callback now s"
| "wallet_step (Withdraw now tid userId amount currencyOpt withdrawalMethod) s =
     snd (withdraw now tid userId amount currencyOpt withdrawalMethod s)"
| "wallet_step (ProcessWinnings now tid matchId winner amount currency platformFee) s =
     snd (process_winnings now tid matchId winner amount currency platformFee s)"

definition wallet_run :: "wallet_op list \<Rightarrow> wallet_state" where
  "wallet_run ops = foldl (\<lambda>s op. wallet_step op s) init_wallet_state ops"

text \<open>
  What does hold of the balances: a wallet whose native currency is in the rate table
  has a non-negative balance, and a pending deposit callback carries a non-negative net
  amount in a currency of the table.
\<close>

definition nonneg :: "jsnum \<Rightarrow> bool" where
  "nonneg x = (case x of Num a \<Rightarrow> 0 \<le> a | NaN \<Rightarrow> False)"

definition wallet_inv :: "wallet_state \<Rightarrow> bool" where
  "wallet_inv s \<longleftrightarrow>
     (\<forall>w \<in> ran (userWallets s). wal_currency w \<in> set currency_keys \<longrightarrow> nonneg (wal_balance w))
   \<and> (\<forall>t \<in> set (depositTimers s).
         dt_currency t \<in> set currency_keys \<and> nonneg (dt_netAmount t))"

section \<open>Withdrawal system (withdrawal.js)\<close>

datatype wd_status = pending_approval | approved | processing | completed | failed | cancelled

datatype priority = high | normal

text \<open>
  A withdrawal object.  The fields that only carry text for the response (the masked
  details, the security hash, the reasons and notes) are left out; no handler branches
  on them.
\<close>

record withdrawal =
  wd_id :: string
  wd_userId :: string
  wd_amount :: rat
  wd_netAmount :: jsnum
  wd_processingFee :: jsnum
  wd_currency :: string
  wd_withdrawalMethod :: string
  wd_status :: wd_status
  wd_kycStatus :: kyc
  wd_timestamp :: nat
  wd_queuePosition :: "nat option"
  wd_priority :: "priority option"
  wd_cancelledAt :: "nat option"
  wd_cancelledBy :: "string option"
  wd_approvedAt :: "nat option"
  wd_approvedBy :: "string option"
  wd_processingStarted :: "nat option"
  wd_gatewayReference :: "string option"
  wd_completedAt :: "nat option"
  wd_failedAt :: "nat option"

text \<open>
  \<open>POST /request\<close> stores one object in \<open>withdrawalRequests\<close> and a copy of it
  (\<open>{...withdrawalRequest, queuePosition, priority}\<close>) in \<open>processingQueue\<close>, and the
  handlers then mutate whichever object they fetched.  So the objects live in a store,
  addressed by their index, and the three maps and the pending gateway callbacks hold
  addresses.
\<close>

record withdrawal_state =
  heap :: "withdrawal list"
  withdrawalRequests :: "(string \<times> nat) list"
  processingQueue :: "(string \<times> nat) list"
  completedWithdrawals :: "(string \<times> nat) list"
  paymentTimers :: "nat list"

definition init_withdrawal_state :: withdrawal_state where
  "init_withdrawal_state =
     \<lparr>heap = [], withdrawalRequests = [], processingQueue = [], completedWithdrawals = [],
      paymentTimers = []\<rparr>"

definition deref :: "withdrawal list \<Rightarrow> nat \<Rightarrow> withdrawal option" where
  "deref h a = (if a < length h then Some (h ! a) else None)"

text \<open>\<open>Array.from(map.values())\<close>.\<close>

definition map_values :: "withdrawal list \<Rightarrow> (string \<times> nat) list \<Rightarrow> withdrawal list" where
  "map_values h kvs = List.map_filter (\<lambda>kv. deref h (snd kv)) kvs"

definition minAmount :: "(string \<times> rat) list" where
  "minAmount =
     [(''INR'', 100), (''USD'', 5), (''EUR'', 5), (''GBP'', 4), (''CNY'', 30), (''JPY'', 500),
      (''KRW'', 6000), (''BRL'', 25), (''RUB'', 350), (''AED'', 18), (''SAR'', 19),
      (''CAD'', 7), (''AUD'', 7)]"

definition maxAmount :: "(string \<times> rat) list" where
  "maxAmount =
     [(''INR'', 200000), (''USD'', 2500), (''EUR'', 2200), (''GBP'', 1900), (''CNY'', 17000),
      (''JPY'', 350000), (''KRW'', 3200000), (''BRL'', 13000), (''RUB'', 180000),
      (''AED'', 9200), (''SAR'', 9400), (''CAD'', 3300), (''AUD'', 3600)]"

definition processingFees :: "(string \<times> rat) list" where
  "processingFees =
     [(''UPI'', 0), (''BankTransfer'', 0), (''Cards'', 2 / 100), (''PIX'', 1 / 100),
      (''Alipay'', 15 / 1000), (''PayPal'', 35 / 1000)]"

text \<open>A table lookup; a missing key gives \<open>undefined\<close>, which compares and computes as \<open>NaN\<close>.\<close>

definition tbl_get :: "(string \<times> rat) list \<Rightarrow> string \<Rightarrow> jsnum" where
  "tbl_get t k = (case map_of t k of None \<Rightarrow> NaN | Some r \<Rightarrow> Num r)"

definition request_methods :: "string list" where
  "request_methods = [''UPI'', ''BankTransfer'', ''Cards'', ''PIX'', ''Alipay'', ''PayPal'']"

text \<open>The route parameter check \<open>/^wd_[a-zA-Z0-9]{12}$/\<close>.\<close>

definition valid_withdrawalId :: "string \<Rightarrow> bool" where
  "valid_withdrawalId x = (take 3 x = ''wd_'' \<and> length x = 15 \<and> list_all alnum (drop 3 x))"

text \<open>\<open>Math.round(amount * feeRate * 100) / 100\<close>.\<close>

definition processing_fee :: "rat \<Rightarrow> jsnum \<Rightarrow> jsnum" where
  "processing_fee amount feeRate =
     (case feeRate of NaN \<Rightarrow> NaN
      | Num r \<Rightarrow> Num (of_int (Math_round (amount * r * 100)) / 100))"

text \<open>
  \<open>POST /request\<close>.  \<open>wid\<close> is what \<open>generateWithdrawalId()\<close> returns; \<open>detailsValid\<close> is
  the result of \<open>validateBankDetails(withdrawalMethod, withdrawalDetails)\<close>, a check of
  the submitted strings alone.
\<close>

definition request_withdrawal ::
  "nat \<Rightarrow> string \<Rightarrow> string \<Rightarrow> rat \<Rightarrow> string \<Rightarrow> string \<Rightarrow> bool \<Rightarrow> kyc option
     \<Rightarrow> withdrawal_state \<Rightarrow> (api_error + withdrawal) \<times> withdrawal_state" where
  "request_withdrawal now wid userId amount currency withdrawalMethod detailsValid kycOpt s =
     (if userId = [] \<or> amount < 1 \<or> currency \<notin> set currency_keys
         \<or> withdrawalMethod \<notin> set request_methods
      then (Inl VALIDATION_FAILED, s)
      else
        let kycStatus = (case kycOpt of None \<Rightarrow> kyc_pending | Some k \<Rightarrow> k);
            amountInINR = convertCurrency (Num amount) currency ''INR''
        in
          if js_lt (Num amount) (tbl_get minAmount currency)
             \<or> js_gt (Num amount) (tbl_get maxAmount currency)
          then (Inl AMOUNT_OUT_OF_RANGE, s)
          else if js_gt amountInINR (Num 10000) \<and> kycStatus \<noteq> kyc_verified
          then (Inl KYC_REQUIRED, s)
          else if \<not> detailsValid then (Inl INVALID_WITHDRAWAL_DETAILS, s)
          else if 2 \<le> length (filter (\<lambda>r. wd_userId r = userId
                                          \<and> int (wd_timestamp r) > int now - 3600000
                                          \<and> wd_status r \<noteq> cancelled)
                                 (map_values (heap s) (withdrawalRequests s)))
          then (Inl WITHDRAWAL_FREQUENCY_EXCEEDED, s)
          else
            let processingFee = processing_fee amount (tbl_get processingFees withdrawalMethod);
                withdrawalRequest =
                  \<lparr>wd_id = wid, wd_userId = userId, wd_amount = amount,
                   wd_netAmount = js_sub (Num amount) processingFee,
                   wd_processingFee = processingFee, wd_currency = currency,
                   wd_withdrawalMethod = withdrawalMethod, wd_status = pending_approval,
                   wd_kycStatus = kycStatus, wd_timestamp = now, wd_queuePosition = None,
                   wd_priority = None, wd_cancelledAt = None, wd_cancelledBy = None,
                   wd_approvedAt = None, wd_approvedBy = None, wd_processingStarted = None,
                   wd_gatewayReference = None, wd_completedAt = None, wd_failedAt = None\<rparr>;
                queued =
                  withdrawalRequest
                    \<lparr>wd_queuePosition := Some (length (processingQueue s) + 1),
                     wd_priority :=
                       Some (if js_gt amountInINR (Num 50000) then high else normal)\<rparr>;
                a = length (heap s)
            in (Inr withdrawalRequest,
                s\<lparr>heap := heap s @ [withdrawalRequest, queued],
                  withdrawalRequests := map_set wid a (withdrawalRequests s),
                  processingQueue := map_set wid (Suc a) (processingQueue s)\<rparr>))"

text \<open>
  \<open>POST /:withdrawalId/cancel\<close>.  The object is
  \<open>withdrawalRequests.get(id) || processingQueue.get(id)\<close>.
\<close>

definition cancel_withdrawal ::
  "nat \<Rightarrow> string \<Rightarrow> string \<Rightarrow> withdrawal_state \<Rightarrow> (api_error + wd_status) \<times> withdrawal_state" where
  "cancel_withdrawal now wid userId s =
     (if \<not> valid_withdrawalId wid \<or> userId = [] then (Inl VALIDATION_FAILED, s)
      else
        (case (case map_of (withdrawalRequests s) wid of
                 Some a \<Rightarrow> Some a
               | None \<Rightarrow> map_of (processingQueue s) wid) of
           None \<Rightarrow> (Inl WITHDRAWAL_NOT_FOUND, s)
         | Some a \<Rightarrow>
             (case deref (heap s) a of
                None \<Rightarrow> (Inl WITHDRAWAL_NOT_FOUND, s)
              | Some w \<Rightarrow>
                  if wd_userId w \<noteq> userId then (Inl UNAUTHORIZED_CANCELLATION, s)
                  else if wd_status w \<noteq> pending_approval \<and> wd_status w \<noteq> approved
                  then (Inl CANCELLATION_NOT_ALLOWED, s)
                  else
                    (Inr cancelled,
                     s\<lparr>heap := (heap s)[a := w\<lparr>wd_status := cancelled,
                                               wd_cancelledAt := Some now,
                                               wd_cancelledBy := Some userId\<rparr>],
                       processingQueue := map_delete wid (processingQueue s),
                       withdrawalRequests := map_delete wid (withdrawalRequests s),
                       completedWithdrawals := map_set wid a (completedWithdrawals s)\<rparr>))))"

text \<open>
  \<open>processPayment(withdrawal)\<close>, up to its \<open>setTimeout\<close>: it runs inside the approve
  handler, marks the object processing and queues the gateway callback.  \<open>gwref\<close> is the
  generated gateway reference.
\<close>

definition processPayment :: "nat \<Rightarrow> string \<Rightarrow> nat \<Rightarrow> withdrawal_state \<Rightarrow> withdrawal_state" where
  "processPayment now gwref b s =
     (case deref (heap s) b of
        None \<Rightarrow> s
      | Some w \<Rightarrow>
          s\<lparr>heap := (heap s)[b := w\<lparr>wd_status := processing,
                                    wd_processingStarted := Some now,
                                    wd_gatewayReference := Some gwref\<rparr>],
            paymentTimers := paymentTimers s @ [b]\<rparr>)"

text \<open>
  The first half of \<open>POST /admin/:withdrawalId/approve\<close>: the queued object is marked
  approved and moved from the queue into \<open>withdrawalRequests\<close>.
\<close>

definition mark_approved :: "nat \<Rightarrow> string \<Rightarrow> string \<Rightarrow> nat \<Rightarrow> withdrawal \<Rightarrow> withdrawal_state \<Rightarrow> withdrawal_state" where
  "mark_approved now wid adminId b w s =
     s\<lparr>heap := (heap s)[b := w\<lparr>wd_status := approved, wd_approvedAt := Some now,
                               wd_approvedBy := Some adminId\<rparr>],
       processingQueue := map_delete wid (processingQueue s),
       withdrawalRequests := map_set wid b (withdrawalRequests s)\<rparr>"

text \<open>\<open>POST /admin/:withdrawalId/approve\<close>; it answers \<open>approved\<close>.\<close>

definition approve_withdrawal ::
  "nat \<Rightarrow> string \<Rightarrow> string \<Rightarrow> string \<Rightarrow> withdrawal_state
     \<Rightarrow> (api_error + wd_status) \<times> withdrawal_state" where
  "approve_withdrawal now gwref wid adminId s =
     (if \<not> valid_withdrawalId wid \<or> adminId = [] then (Inl VALIDATION_FAILED, s)
      else
        (case map_of (processingQueue s) wid of
           None \<Rightarrow> (Inl WITHDRAWAL_NOT_IN_QUEUE, s)
         | Some b \<Rightarrow>
             (case deref (heap s) b of
                None \<Rightarrow> (Inl WITHDRAWAL_NOT_IN_QUEUE, s)
              | Some w \<Rightarrow>
                  (Inr approved,
                   processPayment now gwref b (mark_approved now wid adminId b w s)))))"

text \<open>
  The gateway callback, ten seconds after \<open>processPayment\<close>: the oldest pending one
  fires.  \<open>isSuccess\<close> is the outcome of \<open>Math.random() > 0.1\<close>.
\<close>

definition payment_callback :: "nat \<Rightarrow> bool \<Rightarrow> withdrawal_state \<Rightarrow> withdrawal_state" where
  "payment_callback now isSuccess s =
     (case paymentTimers s of
        [] \<Rightarrow> s
      | b # ts \<Rightarrow>
          (case deref (heap s) b of
             None \<Rightarrow> s\<lparr>paymentTimers := ts\<rparr>
           | Some w \<Rightarrow>
               let w' = (if isSuccess
                         then w\<lparr>wd_status := completed, wd_completedAt := Some now\<rparr>
                         else w\<lparr>wd_status := failed, wd_failedAt := Some now\<rparr>)
               in s\<lparr>heap := (heap s)[b := w'],
                    paymentTimers := ts,
                    withdrawalRequests := map_delete (wd_id w') (withdrawalRequests s),
                    completedWithdrawals := map_set (wd_id w') b (completedWithdrawals s)\<rparr>))"

text \<open>The operations of the withdrawal module, and a run of them from the empty maps.\<close>

datatype wd_op =
  Request nat string string rat string string bool "kyc option"
  | Cancel nat string string
  | Approve nat string string string
  | GatewayCallback nat bool

fun wd_step :: "wd_op \<Rightarrow> withdrawal_state \<Rightarrow> withdrawal_state" where
  "wd_step (Request now wid userId amount currency meth detailsValid kycOpt) s =
     snd (request_withdrawal now wid userId amount currency meth detailsValid kycOpt s)"
| "wd_step (Cancel now wid userId) s = snd (cancel_withdrawal now wid userId s)"
| "wd_step (Approve now gwref wid adminId) s = snd (approve_withdrawal now gwref wid adminId s)"
| "wd_step (GatewayCallback now isSuccess) s = payment_callback now isSuccess s"

definition wd_run :: "wd_op list \<Rightarrow> withdrawal_state" where
  "wd_run ops = foldl (\<lambda>s op. wd_step op s) init_withdrawal_state ops"

text \<open>The status of the object at an address.\<close>

definition status_at :: "withdrawal_state \<Rightarrow> nat \<Rightarrow> wd_status option" where
  "status_at s a = map_option wd_status (deref (heap s) a)"

text \<open>
  The moves of a status over one operation: it stays, or it is cancelled while still
  pending approval or approved, or it goes from pending approval through approved to
  processing, or from processing to completed or failed.
\<close>

fun wd_advance :: "wd_status \<Rightarrow> wd_status \<Rightarrow> bool" where
  "wd_advance pending_approval y = (y \<in> {pending_approval, approved, processing, cancelled})"
| "wd_advance approved y = (y \<in> {approved, processing, cancelled})"
| "wd_advance processing y = (y \<in> {processing, completed, failed})"
| "wd_advance completed y = (y = completed)"
| "wd_advance failed y = (y = failed)"
| "wd_advance cancelled y = (y = cancelled)"


text \<open>
  What holds of the store between two operations: a queued object is pending approval
  and is held by the queue alone, once; an object with a pending gateway callback is
  processing and has one callback; and every address in use is allocated.
\<close>

definition wd_inv :: "withdrawal_state \<Rightarrow> bool" where
  "wd_inv s \<longleftrightarrow>
     (\<forall>kb \<in> set (processingQueue s).
        snd kb < length (heap s) \<and> wd_status (heap s ! snd kb) = pending_approval
        \<and> snd kb \<notin> snd ` set (withdrawalRequests s) \<and> snd kb \<notin> set (paymentTimers s))
   \<and> distinct (map snd (processingQueue s))
   \<and> (\<forall>b \<in> set (paymentTimers s).
        b < length (heap s) \<and> wd_status (heap s ! b) = processing)
   \<and> distinct (paymentTimers s)
   \<and> (\<forall>ka \<in> set (withdrawalRequests s). snd ka < length (heap s))
   \<and> (\<forall>ka \<in> set (completedWithdrawals s). snd ka < length (heap s))"

section \<open>Properties of the match system\<close>


lemma rates_positive: "\<forall>(c, r) \<in> set CURRENCY_RATES. 0 < r"
  by (simp add: CURRENCY_RATES_def)

lemma rate_of_key: "c \<in> set currency_keys \<Longrightarrow> \<exists>r. rate_of c = Some r \<and> 0 < r"
proof -
  assume "c \<in> set currency_keys"
  then obtain r0 where "(c, r0) \<in> set CURRENCY_RATES"
    unfolding currency_keys_def by auto
  then obtain r where r: "map_of CURRENCY_RATES c = Some r"
    using weak_map_of_SomeI by fastforce
  then have "(c, r) \<in> set CURRENCY_RATES" by (rule map_of_SomeD)
  with rates_positive have "0 < r" by blast
  with r show ?thesis unfolding rate_of_def by blast
qed

lemma Math_round_near: "\<bar>of_int (Math_round x) - x\<bar> \<le> 1 / 2"
  unfolding Math_round_def by linarith

lemma round2_near: "\<bar>of_int (Math_round (x * 100)) / 100 - x\<bar> \<le> 1 / 200"
proof -
  have "\<bar>of_int (Math_round (x * 100)) - x * 100\<bar> \<le> 1 / 2" by (rule Math_round_near)
  then show ?thesis by linarith
qed


lemma rate_of_INR: "rate_of ''INR'' = Some 1"
  by (simp add: rate_of_def CURRENCY_RATES_def)

lemma convert_from_INR:
  "rate_of c = Some r \<Longrightarrow>
     convertCurrency (Num a) ''INR'' c = Num (of_int (Math_round (a * r * 100)) / 100)"
  by (simp add: convertCurrency_def rate_of_INR)

lemma game_types_cases:
  "g \<in> set game_types \<Longrightarrow> g = ''chess'' \<or> g = ''snakeLadder'' \<or> g = ''carrom''"
  by (simp add: game_types_def)

lemma game_config_chess:
  "map_of GAME_CONFIGS ''chess'' =
     Some \<lparr>g_name = ''Chess Master'', g_duration = 60, g_maxPlayers = 2,
           g_betAmount = 10, g_split_winner = 16, g_split_platform = 4\<rparr>"
  by (simp add: GAME_CONFIGS_def)

lemma game_config_snakeLadder:
  "map_of GAME_CONFIGS ''snakeLadder'' =
     Some \<lparr>g_name = ''Snake & Ladder'', g_duration = 60, g_maxPlayers = 2,
           g_betAmount = 10, g_split_winner = 16, g_split_platform = 4\<rparr>"
  by (simp add: GAME_CONFIGS_def)

lemma game_config_carrom:
  "map_of GAME_CONFIGS ''carrom'' =
     Some \<lparr>g_name = ''Carrom Board'', g_duration = 60, g_maxPlayers = 2,
           g_betAmount = 10, g_split_winner = 16, g_split_platform = 4\<rparr>"
  by (simp add: GAME_CONFIGS_def)

lemma game_config_of:
  assumes "g \<in> set game_types"
  shows "\<exists>cfg. map_of GAME_CONFIGS g = Some cfg \<and> g_betAmount cfg = 10
           \<and> g_split_winner cfg = 16 \<and> g_split_platform cfg = 4 \<and> g_duration cfg = 60"
proof -
  from game_types_cases [OF assms] consider
    "g = ''chess''" | "g = ''snakeLadder''" | "g = ''carrom''" by blast
  then show ?thesis
  proof cases
    case 1 then show ?thesis by (simp add: game_config_chess)
  next
    case 2 then show ?thesis by (simp add: game_config_snakeLadder)
  next
    case 3 then show ?thesis by (simp add: game_config_carrom)
  qed
qed

lemma map_of_map_set: "map_of (map_set k v kvs) = (map_of kvs) (k \<mapsto> v)"
  by (induction kvs) (auto simp: fun_eq_iff)

lemma map_of_map_delete: "map_of (map_delete k kvs) = (map_of kvs) (k := None)"
  unfolding map_delete_def by (induction kvs) (auto simp: fun_eq_iff)

lemma find_match_pair:
  assumes "g \<in> set game_types" "pid \<noteq> []"
    "case copt of None \<Rightarrow> True | Some c \<Rightarrow> c \<in> set currency_keys"
    "c = (case copt of None \<Rightarrow> ''INR'' | Some c \<Rightarrow> c)"
    "find (in_match pid) (map snd (activeMatches s)) = None"
    "waitingPlayers s (waitingKey g c) = Some (opp # rest)"
    "map_of GAME_CONFIGS g = Some cfg"
  shows "find_match mid now g pid copt s =
     (Inr (MatchFound mid (w_id opp) (m_betAmount (new_match mid now g c cfg pid (w_id opp)))),
      s\<lparr>activeMatches := map_set mid (new_match mid now g c cfg pid (w_id opp)) (activeMatches s),
        waitingPlayers := (if rest = [] then (waitingPlayers s) (waitingKey g c := None)
                           else (waitingPlayers s) (waitingKey g c \<mapsto> rest))\<rparr>)"
  using assms by (cases copt) (simp_all add: find_match_def Let_def)


lemma find_match_wait:
  assumes "g \<in> set game_types" "pid \<noteq> []"
    "case copt of None \<Rightarrow> True | Some c \<Rightarrow> c \<in> set currency_keys"
    "c = (case copt of None \<Rightarrow> ''INR'' | Some c \<Rightarrow> c)"
    "find (in_match pid) (map snd (activeMatches s)) = None"
    "waitingPlayers s (waitingKey g c) = None \<or> waitingPlayers s (waitingKey g c) = Some []"
  shows "find_match mid now g pid copt s =
     (Inr (Waiting 1),
      s\<lparr>waitingPlayers := (waitingPlayers s)
           (waitingKey g c \<mapsto> [\<lparr>w_id = pid, w_timestamp = now\<rparr>])\<rparr>)"
proof -
  obtain cfg where "map_of GAME_CONFIGS g = Some cfg"
    using game_config_of [OF assms(1)] by blast
  then show ?thesis
    using assms by (cases copt) (auto simp: find_match_def Let_def)
qed

lemma find_match_found:
  assumes "find_match mid now g pid copt s = (Inr (MatchFound mid' opp bet), s')"
  shows "\<exists>cfg o' rest. g \<in> set game_types \<and> pid \<noteq> []
     \<and> (case copt of None \<Rightarrow> True | Some c \<Rightarrow> c \<in> set currency_keys)
     \<and> map_of GAME_CONFIGS g = Some cfg
     \<and> find (in_match pid) (map snd (activeMatches s)) = None
     \<and> waitingPlayers s (waitingKey g (case copt of None \<Rightarrow> ''INR'' | Some c \<Rightarrow> c)) = Some (o' # rest)"
proof -
  from assms have v: "g \<in> set game_types" "pid \<noteq> []"
    "case copt of None \<Rightarrow> True | Some c \<Rightarrow> c \<in> set currency_keys"
    by (auto simp: find_match_def split: if_splits option.splits)
  obtain cfg where cfg: "map_of GAME_CONFIGS g = Some cfg"
    using game_config_of [OF v(1)] by blast
  let ?c = "case copt of None \<Rightarrow> ''INR'' | Some c \<Rightarrow> c"
  have nf: "find (in_match pid) (map snd (activeMatches s)) = None"
    using assms v cfg
    by (cases "find (in_match pid) (map snd (activeMatches s))")
       (auto simp: find_match_def Let_def split: option.splits)
  have "\<exists>o' rest. waitingPlayers s (waitingKey g ?c) = Some (o' # rest)"
  proof (cases "waitingPlayers s (waitingKey g ?c)")
    case None
    with find_match_wait [OF v refl nf, of mid now] assms show ?thesis by simp
  next
    case (Some l)
    show ?thesis
    proof (cases l)
      case Nil
      with Some find_match_wait [OF v refl nf, of mid now] assms show ?thesis by simp
    next
      case (Cons a list)
      with Some show ?thesis by simp
    qed
  qed
  with v cfg nf show ?thesis by blast
qed


lemma floor_rat_numeral: "\<lfloor>(numeral a :: rat) / numeral b\<rfloor> = numeral a div numeral b"
  by (metis floor_divide_of_int_eq of_int_numeral)

lemma split_sum_all:
  "list_all (\<lambda>(c, r). c = ''GBP'' \<or>
       of_int (Math_round (16 * r * 100)) / 100 + of_int (Math_round (4 * r * 100)) / 100
         = 2 * (of_int (Math_round (10 * r * 100)) / (100::rat))) CURRENCY_RATES"
  unfolding CURRENCY_RATES_def Math_round_def
  by (simp add: floor_rat_numeral)

lemma split_sum:
  assumes "c \<noteq> ''GBP''" "rate_of c = Some r"
  shows "of_int (Math_round (16 * r * 100)) / 100 + of_int (Math_round (4 * r * 100)) / 100
           = 2 * (of_int (Math_round (10 * r * 100)) / (100::rat))"
proof -
  have "(c, r) \<in> set CURRENCY_RATES"
    using assms(2) unfolding rate_of_def by (rule map_of_SomeD)
  with split_sum_all assms(1) show ?thesis
    unfolding list_all_iff by blast
qed

lemma convert_USD_16: "convertCurrency (Num 16) ''INR'' ''USD'' = Num (19 / 100)"
  by (simp add: convertCurrency_def rate_of_def CURRENCY_RATES_def Math_round_def floor_rat_numeral)

lemma convert_USD_10: "convertCurrency (Num 10) ''INR'' ''USD'' = Num (12 / 100)"
  by (simp add: convertCurrency_def rate_of_def CURRENCY_RATES_def Math_round_def floor_rat_numeral)

lemma convert_GBP_10: "convertCurrency (Num 10) ''INR'' ''GBP'' = Num (10 / 100)"
  by (simp add: convertCurrency_def rate_of_def CURRENCY_RATES_def Math_round_def floor_rat_numeral)

lemma convert_GBP_16: "convertCurrency (Num 16) ''INR'' ''GBP'' = Num (15 / 100)"
  by (simp add: convertCurrency_def rate_of_def CURRENCY_RATES_def Math_round_def floor_rat_numeral)

lemma convert_GBP_4: "convertCurrency (Num 4) ''INR'' ''GBP'' = Num (4 / 100)"
  by (simp add: convertCurrency_def rate_of_def CURRENCY_RATES_def Math_round_def floor_rat_numeral)


lemma new_match_amounts:
  assumes "rate_of c = Some r" "g_betAmount cfg = 10" "g_split_winner cfg = 16"
    "g_split_platform cfg = 4"
  shows "m_betAmount (new_match mid now g c cfg pid opp) = Num (of_int (Math_round (10 * r * 100)) / 100)"
    "m_payout_winner (new_match mid now g c cfg pid opp) = Num (of_int (Math_round (16 * r * 100)) / 100)"
    "m_payout_platform (new_match mid now g c cfg pid opp) = Num (of_int (Math_round (4 * r * 100)) / 100)"
  using assms by (simp_all add: new_match_def convert_from_INR)

text \<open>
  Claim C2, as amended.  The bet amount, the winner's payout and the platform's share of
  a match are the configured INR amounts 10, 16 and 4 (80% and 20% of the pooled 20),
  each converted at the rate of the match's currency and rounded to two decimals on its
  own.  So the payout and the share lie within 0.005 of 80% and 20% of the converted
  pool; in INR they are exactly 80% and 20% of the two bets; and they add up to twice
  the bet amount in every currency of the table except GBP.
\<close>

theorem payout_split_rounded:
  assumes "find_match mid now g pid copt s = (Inr (MatchFound mid' opp bet), s')"
    and "c = (case copt of None \<Rightarrow> ''INR'' | Some x \<Rightarrow> x)"
  shows "\<exists>r m b w p. rate_of c = Some r
     \<and> map_of (activeMatches s') mid = Some m
     \<and> m_betAmount m = Num b \<and> m_payout_winner m = Num w \<and> m_payout_platform m = Num p
     \<and> b = of_int (Math_round (10 * r * 100)) / 100
     \<and> w = of_int (Math_round (16 * r * 100)) / 100
     \<and> p = of_int (Math_round (4 * r * 100)) / 100
     \<and> \<bar>w - 8 / 10 * (2 * (10 * r))\<bar> \<le> 1 / 200
     \<and> \<bar>p - 2 / 10 * (2 * (10 * r))\<bar> \<le> 1 / 200
     \<and> (c = ''INR'' \<longrightarrow> w = 8 / 10 * (b + b) \<and> p = 2 / 10 * (b + b))
     \<and> (c \<noteq> ''GBP'' \<longrightarrow> w + p = 2 * b)"
proof -
  from find_match_found [OF assms(1)] obtain cfg0 o' rest where
    v: "g \<in> set game_types" "pid \<noteq> []"
       "case copt of None \<Rightarrow> True | Some c \<Rightarrow> c \<in> set currency_keys"
    and nf: "find (in_match pid) (map snd (activeMatches s)) = None"
    and wq: "waitingPlayers s (waitingKey g c) = Some (o' # rest)"
    unfolding assms(2) by blast
  obtain cfg where cfg: "map_of GAME_CONFIGS g = Some cfg" "g_betAmount cfg = 10"
      "g_split_winner cfg = 16" "g_split_platform cfg = 4"
    using game_config_of [OF v(1)] by blast
  have ck: "c \<in> set currency_keys"
    using v(3) assms(2) by (cases copt) (simp_all add: currency_keys_def CURRENCY_RATES_def)
  then obtain r where r: "rate_of c = Some r" using rate_of_key by blast
  let ?m = "new_match mid now g c cfg pid (w_id o')"
  let ?b = "of_int (Math_round (10 * r * 100)) / (100::rat)"
  let ?w = "of_int (Math_round (16 * r * 100)) / (100::rat)"
  let ?p = "of_int (Math_round (4 * r * 100)) / (100::rat)"
  have "activeMatches s' = map_set mid ?m (activeMatches s)"
    using find_match_pair [OF v assms(2) nf wq cfg(1), of mid now] assms(1) by simp
  then have m: "map_of (activeMatches s') mid = Some ?m"
    by (simp add: map_of_map_set)
  have near_w: "\<bar>?w - 8 / 10 * (2 * (10 * r))\<bar> \<le> 1 / 200"
    using round2_near [of "16 * r"] by (simp add: algebra_simps)
  have near_p: "\<bar>?p - 2 / 10 * (2 * (10 * r))\<bar> \<le> 1 / 200"
    using round2_near [of "4 * r"] by (simp add: algebra_simps)
  have inr: "c = ''INR'' \<longrightarrow> ?w = 8 / 10 * (?b + ?b) \<and> ?p = 2 / 10 * (?b + ?b)"
  proof
    assume "c = ''INR''"
    with r have "r = 1" by (simp add: rate_of_INR)
    then show "?w = 8 / 10 * (?b + ?b) \<and> ?p = 2 / 10 * (?b + ?b)"
      by (simp add: Math_round_def floor_rat_numeral)
  qed
  have sum: "c \<noteq> ''GBP'' \<longrightarrow> ?w + ?p = 2 * ?b"
    using split_sum [OF _ r] by blast
  from r m new_match_amounts [OF r cfg(2,3,4), of mid now g pid "w_id o'"] near_w near_p inr sum
  show ?thesis by blast
qed


lemmas match_eval =
  find_match_def game_types_def currency_keys_def CURRENCY_RATES_def GAME_CONFIGS_def
  init_match_state_def waitingKey_def new_match_def convertCurrency_def rate_of_def
  Math_round_def floor_rat_numeral in_match_def Let_def

lemma find_match_first:
  "find_match ''match_0000000a'' 1 ''chess'' ''p1'' (Some ''USD'') init_match_state =
     (Inr (Waiting 1),
      \<lparr>activeMatches = [],
       waitingPlayers = [''chess_USD'' \<mapsto> [\<lparr>w_id = ''p1'', w_timestamp = 1\<rparr>]],
       matchHistory = Map.empty\<rparr>)"
  by (simp add: match_eval)

lemma find_match_second:
  "find_match ''match_0000000b'' 2 ''chess'' ''p2'' (Some ''USD'')
     (snd (find_match ''match_0000000a'' 1 ''chess'' ''p1'' (Some ''USD'') init_match_state)) =
   (Inr (MatchFound ''match_0000000b'' ''p1'' (Num (12 / 100))),
    \<lparr>activeMatches =
       [(''match_0000000b'',
         \<lparr>m_id = ''match_0000000b'', m_gameType = ''chess'', m_currency = ''USD'',
          m_betAmount = Num (12 / 100),
          m_players =
            [\<lparr>p_id = ''p2'', p_score = Num 0, p_status = connected, p_lastUpdate = None\<rparr>,
             \<lparr>p_id = ''p1'', p_score = Num 0, p_status = connected, p_lastUpdate = None\<rparr>],
          m_status = m_starting, m_startTime = 2, m_duration = 60,
          m_payout_winner = Num (19 / 100), m_payout_platform = Num (5 / 100),
          m_endTime = None, m_result = None, m_cancelledBy = None\<rparr>)],
     waitingPlayers = Map.empty, matchHistory = Map.empty\<rparr>)"
  unfolding find_match_first snd_conv
  by (simp add: match_eval)


lemma game_type_no_underscore: "g \<in> set game_types \<Longrightarrow> CHR ''_'' \<notin> set g"
  by (drule game_types_cases) auto

lemma split_at_first:
  "x \<notin> set xs \<Longrightarrow> x \<notin> set xs' \<Longrightarrow> (xs @ x # ys = xs' @ x # ys') = (xs = xs' \<and> ys = ys')"
proof (induction xs arbitrary: xs')
  case Nil
  then show ?case by (cases xs') auto
next
  case (Cons a xs)
  then show ?case by (cases xs') auto
qed

lemma waitingKey_inject:
  assumes "g \<in> set game_types" "g' \<in> set game_types"
  shows "waitingKey g c = waitingKey g' c' \<longleftrightarrow> g = g' \<and> c = c'"
  using game_type_no_underscore [OF assms(1)] game_type_no_underscore [OF assms(2)]
  by (simp add: waitingKey_def split_at_first)

text \<open>
  Claim C4, as amended.  The waiting queues are keyed by game type and currency
  together.  A player who is in no active match and asks for a game type in a currency
  (INR when none is given) is paired with the head of the queue of that game type and that currency, which is
  popped (and the emptied queue removed); when nobody waits there the player is put
  into that queue.  The queue of every other (game type, currency) pair is untouched, so
  players asking for the same game type in different currencies are not paired.
\<close>

theorem find_match_fifo:
  assumes "g \<in> set game_types" and "pid \<noteq> []"
    and v3: "case copt of None \<Rightarrow> True | Some x \<Rightarrow> x \<in> set currency_keys"
    and c: "c = (case copt of None \<Rightarrow> ''INR'' | Some x \<Rightarrow> x)"
    and nf: "find (in_match pid) (map snd (activeMatches s)) = None"
    and res: "find_match mid now g pid copt s = (res, s')"
  shows "(\<forall>opp rest. waitingPlayers s (waitingKey g c) = Some (opp # rest) \<longrightarrow>
            (\<exists>bet m. res = Inr (MatchFound mid (w_id opp) bet)
               \<and> map_of (activeMatches s') mid = Some m
               \<and> map p_id (m_players m) = [pid, w_id opp])
            \<and> waitingPlayers s' (waitingKey g c) = (if rest = [] then None else Some rest))
       \<and> (waitingPlayers s (waitingKey g c) = None \<or> waitingPlayers s (waitingKey g c) = Some [] \<longrightarrow>
            res = Inr (Waiting 1) \<and> activeMatches s' = activeMatches s
            \<and> waitingPlayers s' (waitingKey g c) = Some [\<lparr>w_id = pid, w_timestamp = now\<rparr>])
       \<and> (\<forall>g' c'. g' \<in> set game_types \<and> (g', c') \<noteq> (g, c) \<longrightarrow>
            waitingPlayers s' (waitingKey g' c') = waitingPlayers s (waitingKey g' c'))"
proof -
  obtain cfg where cfg: "map_of GAME_CONFIGS g = Some cfg"
    using game_config_of [OF assms(1)] by blast
  have pair: "(\<exists>bet m. res = Inr (MatchFound mid (w_id opp) bet)
               \<and> map_of (activeMatches s') mid = Some m
               \<and> map p_id (m_players m) = [pid, w_id opp])
            \<and> waitingPlayers s' (waitingKey g c) = (if rest = [] then None else Some rest)"
    if "waitingPlayers s (waitingKey g c) = Some (opp # rest)" for opp rest
    using find_match_pair [OF assms(1,2) v3 c nf that cfg, of mid now] res
    by (auto simp: map_of_map_set new_match_def)
  have wait: "res = Inr (Waiting 1) \<and> activeMatches s' = activeMatches s
            \<and> waitingPlayers s' (waitingKey g c) = Some [\<lparr>w_id = pid, w_timestamp = now\<rparr>]"
    if "waitingPlayers s (waitingKey g c) = None \<or> waitingPlayers s (waitingKey g c) = Some []"
    using find_match_wait [OF assms(1,2) v3 c nf that, of mid now] res
    by auto
  have other: "waitingPlayers s' (waitingKey g' c') = waitingPlayers s (waitingKey g' c')"
    if "g' \<in> set game_types" "(g', c') \<noteq> (g, c)" for g' c'
  proof -
    have ne: "waitingKey g' c' \<noteq> waitingKey g c"
      using waitingKey_inject [OF that(1) assms(1)] that(2) by simp
    show ?thesis
    proof (cases "waitingPlayers s (waitingKey g c)")
      case None
      with find_match_wait [OF assms(1,2) v3 c nf, of mid now] res ne
      show ?thesis by auto
    next
      case (Some l)
      show ?thesis
      proof (cases l)
        case Nil
        with Some find_match_wait [OF assms(1,2) v3 c nf, of mid now] res ne
        show ?thesis by auto
      next
        case (Cons opp rest)
        with Some find_match_pair [OF assms(1,2) v3 c nf _ cfg, of opp rest mid now]
          res ne
        show ?thesis by auto
      qed
    qed
  qed
  from pair wait other show ?thesis by blast
qed

lemma sort_two: "sort_players [p, q] = (if score_cmp_neg q p then [q, p] else [p, q])"
  by (simp add: sort_players_def)

text \<open>
  Claim C1.  A match with two players that \<open>POST /:matchId/complete\<close> completes is
  settled by comparing the two scores: the player whose score is strictly greater is
  the winner and is paid \<open>payout.winner\<close>, the other is paid 0 and the platform earns
  \<open>payout.platform\<close>; with equal scores the result is a draw with no winner, each
  player gets \<open>betAmount\<close> back and the platform earns 0.  The result is stored with
  the match in \<open>matchHistory\<close>, and the match leaves \<open>activeMatches\<close>.
\<close>

theorem complete_match_score_comparison:
  assumes "valid_matchId mid" and "map_of (activeMatches s) mid = Some m"
    and "m_status m \<noteq> m_completed" and "m_players m = [p, q]"
  shows "(js_gt (p_score p) (p_score q) \<longrightarrow>
           fst (complete_match now mid s) =
             Inr \<lparr>r_type = r_win, r_winner = Some (p_id p),
                  r_payouts =
                    [\<lparr>po_playerId = p_id p, po_amount = m_payout_winner m, po_type = win\<rparr>,
                     \<lparr>po_playerId = p_id q, po_amount = Num 0, po_type = loss\<rparr>],
                  r_platformEarnings = m_payout_platform m\<rparr>)
       \<and> (js_gt (p_score q) (p_score p) \<longrightarrow>
           fst (complete_match now mid s) =
             Inr \<lparr>r_type = r_win, r_winner = Some (p_id q),
                  r_payouts =
                    [\<lparr>po_playerId = p_id q, po_amount = m_payout_winner m, po_type = win\<rparr>,
                     \<lparr>po_playerId = p_id p, po_amount = Num 0, po_type = loss\<rparr>],
                  r_platformEarnings = m_payout_platform m\<rparr>)
       \<and> (js_seq (p_score p) (p_score q) \<longrightarrow>
           fst (complete_match now mid s) =
             Inr \<lparr>r_type = r_draw, r_winner = None,
                  r_payouts =
                    [\<lparr>po_playerId = p_id p, po_amount = m_betAmount m, po_type = refund\<rparr>,
                     \<lparr>po_playerId = p_id q, po_amount = m_betAmount m, po_type = refund\<rparr>],
                  r_platformEarnings = Num 0\<rparr>)
       \<and> map_option m_result (matchHistory (snd (complete_match now mid s)) mid)
           = Some (case fst (complete_match now mid s) of Inr r \<Rightarrow> Some r | Inl e \<Rightarrow> None)
       \<and> map_of (activeMatches (snd (complete_match now mid s))) mid = None"
  using assms
  by (cases "p_score p"; cases "p_score q")
     (auto simp: complete_match_def sort_two score_cmp_neg_def settle_def Let_def
        map_of_map_delete)

lemma valid_matchId_a: "valid_matchId ''match_0000000a''"
  by (simp add: valid_matchId_def alnum_def)

theorem complete_match_score_comparison_witness:
  "fst (complete_match 9 ''match_0000000a''
       \<lparr>activeMatches =
         [(''match_0000000a'',
           \<lparr>m_id = ''match_0000000a'', m_gameType = ''chess'', m_currency = ''INR'',
            m_betAmount = Num 10,
            m_players =
              [\<lparr>p_id = ''p1'', p_score = Num 5, p_status = connected, p_lastUpdate = None\<rparr>,
               \<lparr>p_id = ''p2'', p_score = Num 3, p_status = connected, p_lastUpdate = None\<rparr>],
            m_status = m_starting, m_startTime = 1, m_duration = 60,
            m_payout_winner = Num 16, m_payout_platform = Num 4,
            m_endTime = None, m_result = None, m_cancelledBy = None\<rparr>)],
        waitingPlayers = Map.empty, matchHistory = Map.empty\<rparr>)
     = Inr \<lparr>r_type = r_win, r_winner = Some ''p1'',
           r_payouts =
             [\<lparr>po_playerId = ''p1'', po_amount = Num 16, po_type = win\<rparr>,
              \<lparr>po_playerId = ''p2'', po_amount = Num 0, po_type = loss\<rparr>],
           r_platformEarnings = Num 4\<rparr>
   \<and> fst (complete_match 9 ''match_0000000a''
       \<lparr>activeMatches =
         [(''match_0000000a'',
           \<lparr>m_id = ''match_0000000a'', m_gameType = ''chess'', m_currency = ''INR'',
            m_betAmount = Num 10,
            m_players =
              [\<lparr>p_id = ''p1'', p_score = Num 3, p_status = connected, p_lastUpdate = None\<rparr>,
               \<lparr>p_id = ''p2'', p_score = Num 5, p_status = connected, p_lastUpdate = None\<rparr>],
            m_status = m_starting, m_startTime = 1, m_duration = 60,
            m_payout_winner = Num 16, m_payout_platform = Num 4,
            m_endTime = None, m_result = None, m_cancelledBy = None\<rparr>)],
        waitingPlayers = Map.empty, matchHistory = Map.empty\<rparr>)
     = Inr \<lparr>r_type = r_win, r_winner = Some ''p2'',
           r_payouts =
             [\<lparr>po_playerId = ''p2'', po_amount = Num 16, po_type = win\<rparr>,
              \<lparr>po_playerId = ''p1'', po_amount = Num 0, po_type = loss\<rparr>],
           r_platformEarnings = Num 4\<rparr>
   \<and> fst (complete_match 9 ''match_0000000a''
       \<lparr>activeMatches =
         [(''match_0000000a'',
           \<lparr>m_id = ''match_0000000a'', m_gameType = ''chess'', m_currency = ''INR'',
            m_betAmount = Num 10,
            m_players =
              [\<lparr>p_id = ''p1'', p_score = Num 4, p_status = connected, p_lastUpdate = None\<rparr>,
               \<lparr>p_id = ''p2'', p_score = Num 4, p_status = connected, p_lastUpdate = None\<rparr>],
            m_status = m_starting, m_startTime = 1, m_duration = 60,
            m_payout_winner = Num 16, m_payout_platform = Num 4,
            m_endTime = None, m_result = None, m_cancelledBy = None\<rparr>)],
        waitingPlayers = Map.empty, matchHistory = Map.empty\<rparr>)
     = Inr \<lparr>r_type = r_draw, r_winner = None,
           r_payouts =
             [\<lparr>po_playerId = ''p1'', po_amount = Num 10, po_type = refund\<rparr>,
              \<lparr>po_playerId = ''p2'', po_amount = Num 10, po_type = refund\<rparr>],
           r_platformEarnings = Num 0\<rparr>"
  using
    complete_match_score_comparison
      [of "''match_0000000a''"
          "\<lparr>activeMatches =
         [(''match_0000000a'',
           \<lparr>m_id = ''match_0000000a'', m_gameType = ''chess'', m_currency = ''INR'',
            m_betAmount = Num 10,
            m_players =
              [\<lparr>p_id = ''p1'', p_score = Num 5, p_status = connected, p_lastUpdate = None\<rparr>,
               \<lparr>p_id = ''p2'', p_score = Num 3, p_status = connected, p_lastUpdate = None\<rparr>],
            m_status = m_starting, m_startTime = 1, m_duration = 60,
            m_payout_winner = Num 16, m_payout_platform = Num 4,
            m_endTime = None, m_result = None, m_cancelledBy = None\<rparr>)],
        waitingPlayers = Map.empty, matchHistory = Map.empty\<rparr>"
          "\<lparr>m_id = ''match_0000000a'', m_gameType = ''chess'', m_currency = ''INR'',
            m_betAmount = Num 10,
            m_players =
              [\<lparr>p_id = ''p1'', p_score = Num 5, p_status = connected, p_lastUpdate = None\<rparr>,
               \<lparr>p_id = ''p2'', p_score = Num 3, p_status = connected, p_lastUpdate = None\<rparr>],
            m_status = m_starting, m_startTime = 1, m_duration = 60,
            m_payout_winner = Num 16, m_payout_platform = Num 4,
            m_endTime = None, m_result = None, m_cancelledBy = None\<rparr>"
          "\<lparr>p_id = ''p1'', p_score = Num 5, p_status = connected, p_lastUpdate = None\<rparr>"
          "\<lparr>p_id = ''p2'', p_score = Num 3, p_status = connected, p_lastUpdate = None\<rparr>" 9]
    complete_match_score_comparison
      [of "''match_0000000a''"
          "\<lparr>activeMatches =
         [(''match_0000000a'',
           \<lparr>m_id = ''match_0000000a'', m_gameType = ''chess'', m_currency = ''INR'',
            m_betAmount = Num 10,
            m_players =
              [\<lparr>p_id = ''p1'', p_score = Num 3, p_status = connected, p_lastUpdate = None\<rparr>,
               \<lparr>p_id = ''p2'', p_score = Num 5, p_status = connected, p_lastUpdate = None\<rparr>],
            m_status = m_starting, m_startTime = 1, m_duration = 60,
            m_payout_winner = Num 16, m_payout_platform = Num 4,
            m_endTime = None, m_result = None, m_cancelledBy = None\<rparr>)],
        waitingPlayers = Map.empty, matchHistory = Map.empty\<rparr>"
          "\<lparr>m_id = ''match_0000000a'', m_gameType = ''chess'', m_currency = ''INR'',
            m_betAmount = Num 10,
            m_players =
              [\<lparr>p_id = ''p1'', p_score = Num 3, p_status = connected, p_lastUpdate = None\<rparr>,
               \<lparr>p_id = ''p2'', p_score = Num 5, p_status = connected, p_lastUpdate = None\<rparr>],
            m_status = m_starting, m_startTime = 1, m_duration = 60,
            m_payout_winner = Num 16, m_payout_platform = Num 4,
            m_endTime = None, m_result = None, m_cancelledBy = None\<rparr>"
          "\<lparr>p_id = ''p1'', p_score = Num 3, p_status = connected, p_lastUpdate = None\<rparr>"
          "\<lparr>p_id = ''p2'', p_score = Num 5, p_status = connected, p_lastUpdate = None\<rparr>" 9]
    complete_match_score_comparison
      [of "''match_0000000a''"
          "\<lparr>activeMatches =
         [(''match_0000000a'',
           \<lparr>m_id = ''match_0000000a'', m_gameType = ''chess'', m_currency = ''INR'',
            m_betAmount = Num 10,
            m_players =
              [\<lparr>p_id = ''p1'', p_score = Num 4, p_status = connected, p_lastUpdate = None\<rparr>,
               \<lparr>p_id = ''p2'', p_score = Num 4, p_status = connected, p_lastUpdate = None\<rparr>],
            m_status = m_starting, m_startTime = 1, m_duration = 60,
            m_payout_winner = Num 16, m_payout_platform = Num 4,
            m_endTime = None, m_result = None, m_cancelledBy = None\<rparr>)],
        waitingPlayers = Map.empty, matchHistory = Map.empty\<rparr>"
          "\<lparr>m_id = ''match_0000000a'', m_gameType = ''chess'', m_currency = ''INR'',
            m_betAmount = Num 10,
            m_players =
              [\<lparr>p_id = ''p1'', p_score = Num 4, p_status = connected, p_lastUpdate = None\<rparr>,
               \<lparr>p_id = ''p2'', p_score = Num 4, p_status = connected, p_lastUpdate = None\<rparr>],
            m_status = m_starting, m_startTime = 1, m_duration = 60,
            m_payout_winner = Num 16, m_payout_platform = Num 4,
            m_endTime = None, m_result = None, m_cancelledBy = None\<rparr>"
          "\<lparr>p_id = ''p1'', p_score = Num 4, p_status = connected, p_lastUpdate = None\<rparr>"
          "\<lparr>p_id = ''p2'', p_score = Num 4, p_status = connected, p_lastUpdate = None\<rparr>" 9]
    valid_matchId_a
  by simp




theorem payout_split_rounded_witness:
  "\<exists>r m b w p. rate_of ''USD'' = Some r
     \<and> map_of (activeMatches
          (snd (find_match ''match_0000000b'' 2 ''chess'' ''p2'' (Some ''USD'')
            (snd (find_match ''match_0000000a'' 1 ''chess'' ''p1'' (Some ''USD'')
               init_match_state))))) ''match_0000000b'' = Some m
     \<and> m_betAmount m = Num b \<and> m_payout_winner m = Num w \<and> m_payout_platform m = Num p
     \<and> b = of_int (Math_round (10 * r * 100)) / 100
     \<and> w = of_int (Math_round (16 * r * 100)) / 100
     \<and> p = of_int (Math_round (4 * r * 100)) / 100
     \<and> \<bar>w - 8 / 10 * (2 * (10 * r))\<bar> \<le> 1 / 200
     \<and> \<bar>p - 2 / 10 * (2 * (10 * r))\<bar> \<le> 1 / 200
     \<and> w + p = 2 * b"
proof -
  have ne: "''USD'' \<noteq> ''GBP''" by simp
  from payout_split_rounded [OF find_match_second refl] ne
  show ?thesis unfolding find_match_second snd_conv option.case by blast
qed


lemma find_match_first_GBP:
  "find_match ''match_0000000a'' 1 ''chess'' ''p1'' (Some ''GBP'') init_match_state =
     (Inr (Waiting 1),
      \<lparr>activeMatches = [],
       waitingPlayers = [''chess_GBP'' \<mapsto> [\<lparr>w_id = ''p1'', w_timestamp = 1\<rparr>]],
       matchHistory = Map.empty\<rparr>)"
  by (simp add: match_eval)

lemma find_match_second_GBP:
  "find_match ''match_0000000b'' 2 ''chess'' ''p2'' (Some ''GBP'')
        (snd (find_match ''match_0000000a'' 1 ''chess'' ''p1'' (Some ''GBP'') init_match_state)) =
   (Inr (MatchFound ''match_0000000b'' ''p1'' (Num (10 / 100))),
    \<lparr>activeMatches =
       [(''match_0000000b'',
         \<lparr>m_id = ''match_0000000b'', m_gameType = ''chess'', m_currency = ''GBP'',
          m_betAmount = Num (10 / 100),
          m_players =
            [\<lparr>p_id = ''p2'', p_score = Num 0, p_status = connected, p_lastUpdate = None\<rparr>,
             \<lparr>p_id = ''p1'', p_score = Num 0, p_status = connected, p_lastUpdate = None\<rparr>],
          m_status = m_starting, m_startTime = 2, m_duration = 60,
          m_payout_winner = Num (15 / 100), m_payout_platform = Num (4 / 100),
          m_endTime = None, m_result = None, m_cancelledBy = None\<rparr>)],
     waitingPlayers = Map.empty, matchHistory = Map.empty\<rparr>)"
  unfolding find_match_first_GBP snd_conv
  by (simp add: match_eval)

text \<open>
  Claim C2 as stated fails.  Two players paired for chess in USD: the bet is 0.12 each
  and the winner's payout is 0.19, not 80% of the pooled 0.24 (0.192).  In GBP the bet
  is 0.10, the payout 0.15 and the platform's share 0.04, which add up to 0.19 and not to
  twice the bet.
\<close>

theorem payout_split_counterexample:
  "map_option m_betAmount
     (map_of (activeMatches (snd (find_match ''match_0000000b'' 2 ''chess'' ''p2'' (Some ''USD'')
        (snd (find_match ''match_0000000a'' 1 ''chess'' ''p1'' (Some ''USD'') init_match_state))))) ''match_0000000b'') = Some (Num (12 / 100))
   \<and> map_option m_payout_winner
     (map_of (activeMatches (snd (find_match ''match_0000000b'' 2 ''chess'' ''p2'' (Some ''USD'')
        (snd (find_match ''match_0000000a'' 1 ''chess'' ''p1'' (Some ''USD'') init_match_state))))) ''match_0000000b'') = Some (Num (19 / 100))
   \<and> (19 / 100 :: rat) \<noteq> 8 / 10 * (12 / 100 + 12 / 100)
   \<and> map_option m_betAmount
     (map_of (activeMatches (snd (find_match ''match_0000000b'' 2 ''chess'' ''p2'' (Some ''GBP'')
        (snd (find_match ''match_0000000a'' 1 ''chess'' ''p1'' (Some ''GBP'') init_match_state))))) ''match_0000000b'') = Some (Num (10 / 100))
   \<and> map_option m_payout_winner
     (map_of (activeMatches (snd (find_match ''match_0000000b'' 2 ''chess'' ''p2'' (Some ''GBP'')
        (snd (find_match ''match_0000000a'' 1 ''chess'' ''p1'' (Some ''GBP'') init_match_state))))) ''match_0000000b'') = Some (Num (15 / 100))
   \<and> map_option m_payout_platform
     (map_of (activeMatches (snd (find_match ''match_0000000b'' 2 ''chess'' ''p2'' (Some ''GBP'')
        (snd (find_match ''match_0000000a'' 1 ''chess'' ''p1'' (Some ''GBP'') init_match_state))))) ''match_0000000b'') = Some (Num (4 / 100))
   \<and> (15 / 100 + 4 / 100 :: rat) \<noteq> 2 * (10 / 100)"
  unfolding find_match_second find_match_second_GBP by simp

lemma find_match_first_INR:
  "find_match ''match_0000000a'' 1 ''chess'' ''p1'' (Some ''INR'') init_match_state =
     (Inr (Waiting 1),
      \<lparr>activeMatches = [],
       waitingPlayers = [''chess_INR'' \<mapsto> [\<lparr>w_id = ''p1'', w_timestamp = 1\<rparr>]],
       matchHistory = Map.empty\<rparr>)"
  by (simp add: match_eval)

text \<open>
  Claim C4 as stated fails.  A player waits for chess in INR; a second player asks for
  chess in USD.  The second player is not paired with the first: the answer is
  "waiting", no match is created, and both wait, each in the queue of their own
  currency.
\<close>

theorem matchmaking_counterexample:
  "fst (find_match ''match_0000000b'' 2 ''chess'' ''p2'' (Some ''USD'')
        (snd (find_match ''match_0000000a'' 1 ''chess'' ''p1'' (Some ''INR'') init_match_state))) = Inr (Waiting 1)
   \<and> activeMatches (snd (find_match ''match_0000000b'' 2 ''chess'' ''p2'' (Some ''USD'')
        (snd (find_match ''match_0000000a'' 1 ''chess'' ''p1'' (Some ''INR'') init_match_state)))) = []
   \<and> waitingPlayers (snd (find_match ''match_0000000b'' 2 ''chess'' ''p2'' (Some ''USD'')
        (snd (find_match ''match_0000000a'' 1 ''chess'' ''p1'' (Some ''INR'') init_match_state)))) ''chess_INR''
       = Some [\<lparr>w_id = ''p1'', w_timestamp = 1\<rparr>]
   \<and> waitingPlayers (snd (find_match ''match_0000000b'' 2 ''chess'' ''p2'' (Some ''USD'')
        (snd (find_match ''match_0000000a'' 1 ''chess'' ''p1'' (Some ''INR'') init_match_state)))) ''chess_USD''
       = Some [\<lparr>w_id = ''p2'', w_timestamp = 2\<rparr>]"
  unfolding find_match_first_INR snd_conv
  by (simp add: match_eval)

lemma find_match_first_default:
  "find_match ''match_0000000a'' 1 ''chess'' ''p1'' None init_match_state =
     (Inr (Waiting 1),
      \<lparr>activeMatches = [],
       waitingPlayers = [''chess_INR'' \<mapsto> [\<lparr>w_id = ''p1'', w_timestamp = 1\<rparr>]],
       matchHistory = Map.empty\<rparr>)"
  by (simp add: match_eval)

text \<open>
  Claim C6.  The players of a stored match need not be distinct.  \<open>POST /find\<close> checks
  the active matches for the player but not the waiting queue, so a player who is
  already waiting and asks again for the same game is popped as their own opponent: the
  match created has the same player id twice.
\<close>

theorem self_match_created:
  "fst (find_match ''match_0000000b'' 2 ''chess'' ''p1'' None
        (snd (find_match ''match_0000000a'' 1 ''chess'' ''p1'' None init_match_state))) = Inr (MatchFound ''match_0000000b'' ''p1'' (Num 10))
   \<and> map_option (map p_id)
       (map_option m_players
         (map_of (activeMatches (snd (find_match ''match_0000000b'' 2 ''chess'' ''p1'' None
        (snd (find_match ''match_0000000a'' 1 ''chess'' ''p1'' None init_match_state))))) ''match_0000000b''))
       = Some [''p1'', ''p1'']"
  unfolding find_match_first_default snd_conv
  by (simp add: match_eval)


theorem find_match_fifo_witness:
  "(\<exists>bet m.
      fst (find_match ''match_0000000b'' 2 ''chess'' ''p2'' (Some ''USD'')
         \<lparr>activeMatches = [],
          waitingPlayers = [''chess_USD'' \<mapsto> [\<lparr>w_id = ''p1'', w_timestamp = 1\<rparr>]],
          matchHistory = Map.empty\<rparr>) = Inr (MatchFound ''match_0000000b'' ''p1'' bet)
      \<and> map_of (activeMatches (snd (find_match ''match_0000000b'' 2 ''chess'' ''p2'' (Some ''USD'')
         \<lparr>activeMatches = [],
          waitingPlayers = [''chess_USD'' \<mapsto> [\<lparr>w_id = ''p1'', w_timestamp = 1\<rparr>]],
          matchHistory = Map.empty\<rparr>))) ''match_0000000b'' = Some m
      \<and> map p_id (m_players m) = [''p2'', ''p1''])
   \<and> waitingPlayers (snd (find_match ''match_0000000b'' 2 ''chess'' ''p2'' (Some ''USD'')
         \<lparr>activeMatches = [],
          waitingPlayers = [''chess_USD'' \<mapsto> [\<lparr>w_id = ''p1'', w_timestamp = 1\<rparr>]],
          matchHistory = Map.empty\<rparr>)) (waitingKey ''chess'' ''USD'') = None
   \<and> waitingPlayers (snd (find_match ''match_0000000b'' 2 ''chess'' ''p2'' (Some ''USD'')
         \<lparr>activeMatches = [],
          waitingPlayers = [''chess_USD'' \<mapsto> [\<lparr>w_id = ''p1'', w_timestamp = 1\<rparr>]],
          matchHistory = Map.empty\<rparr>)) (waitingKey ''chess'' ''INR'') = None"
proof -
  let ?s = "\<lparr>activeMatches = [],
          waitingPlayers = [''chess_USD'' \<mapsto> [\<lparr>w_id = ''p1'', w_timestamp = 1\<rparr>]],
          matchHistory = Map.empty\<rparr>"
  let ?r = "find_match ''match_0000000b'' 2 ''chess'' ''p2'' (Some ''USD'')
         \<lparr>activeMatches = [],
          waitingPlayers = [''chess_USD'' \<mapsto> [\<lparr>w_id = ''p1'', w_timestamp = 1\<rparr>]],
          matchHistory = Map.empty\<rparr>"
  have h1: "''chess'' \<in> set game_types" by (simp add: game_types_def)
  have h2: "''p2'' \<noteq> []" by simp
  have h3: "case Some ''USD'' of None \<Rightarrow> True | Some x \<Rightarrow> x \<in> set currency_keys"
    by (simp add: currency_keys_def CURRENCY_RATES_def)
  have hc: "''USD'' = (case Some ''USD'' of None \<Rightarrow> ''INR'' | Some x \<Rightarrow> x)" by simp
  have h4: "find (in_match ''p2'') (map snd (activeMatches ?s)) = None" by simp
  have h5: "?r = (fst ?r, snd ?r)" by simp
  note T = find_match_fifo [OF h1 h2 h3 hc h4 h5]
  have q: "waitingPlayers ?s (waitingKey ''chess'' ''USD'')
             = Some (\<lparr>w_id = ''p1'', w_timestamp = 1\<rparr> # [])"
    by (simp add: waitingKey_def)
  have o: "''chess'' \<in> set game_types \<and> (''chess'', ''INR'') \<noteq> (''chess'', ''USD'')"
    using h1 by simp
  have k: "waitingPlayers ?s (waitingKey ''chess'' ''INR'') = None"
    by (simp add: waitingKey_def)
  from T [THEN conjunct1, rule_format, OF q]
       T [THEN conjunct2, THEN conjunct2, rule_format, OF o] k
  show ?thesis by simp
qed




theorem self_match_created_witness:
  "\<exists>m. map_of (activeMatches (snd (find_match ''match_0000000b'' 2 ''chess'' ''p1'' None
        (snd (find_match ''match_0000000a'' 1 ''chess'' ''p1'' None init_match_state))))) ''match_0000000b'' = Some m
     \<and> length (m_players m) = 2 \<and> \<not> distinct (map p_id (m_players m))"
proof -
  from self_match_created
  have "map_option (map p_id)
       (map_option m_players
         (map_of (activeMatches (snd (find_match ''match_0000000b'' 2 ''chess'' ''p1'' None
        (snd (find_match ''match_0000000a'' 1 ''chess'' ''p1'' None init_match_state))))) ''match_0000000b''))
       = Some [''p1'', ''p1'']" by (rule conjunct2)
  then obtain m where
    "map_of (activeMatches (snd (find_match ''match_0000000b'' 2 ''chess'' ''p1'' None
        (snd (find_match ''match_0000000a'' 1 ''chess'' ''p1'' None init_match_state))))) ''match_0000000b'' = Some m"
    "map p_id (m_players m) = [''p1'', ''p1'']"
    by auto
  moreover from this(2) have "length (map p_id (m_players m)) = length [''p1'', ''p1'']"
    by (rule arg_cong)
  then have "length (m_players m) = 2" by simp
  ultimately show ?thesis by (intro exI [of _ m]) simp
qed



section \<open>Properties of the wallet system\<close>


lemma get_or_create_existing:
  "userWallets s userId = Some w \<Longrightarrow> get_or_create now userId c s = (w, s)"
  by (simp add: get_or_create_def)

lemma get_or_create_new:
  "userWallets s userId = None \<Longrightarrow>
     get_or_create now userId c s =
       (createWallet now userId c,
        s\<lparr>userWallets := (userWallets s) (userId \<mapsto> createWallet now userId c)\<rparr>)"
  by (simp add: get_or_create_def Let_def)

lemma convertCurrency_rates:
  "rate_of f = Some rf \<Longrightarrow> rate_of t = Some rt \<Longrightarrow>
     convertCurrency (Num a) f t = Num (of_int \<lfloor>a / rf * rt * 100 + 1 / 2\<rfloor> / 100)"
  by (simp add: convertCurrency_def Math_round_def)


text \<open>
  Claim C10.  \<open>GET /:userId\<close> for a user without a wallet is not a pure read: it stores
  a new wallet with balance 0, zero totals, KYC status pending and the requested
  currency (INR when none is given) as native currency, and returns it.  Every later
  read of the same user id finds this stored wallet and leaves the state unchanged.
\<close>

theorem get_wallet_creates:
  assumes "userId \<noteq> []" and "userWallets s userId = None"
    and "c = (case copt of None \<Rightarrow> ''INR'' | Some x \<Rightarrow> x)"
    and "s' = snd (get_wallet now userId copt s)"
  shows "fst (get_wallet now userId copt s) =
           Inr \<lparr>wi_userId = userId, wi_balance = Num 0, wi_currency = c,
                wi_nativeBalance = Num 0, wi_nativeCurrency = c, wi_totalDeposits = Num 0,
                wi_totalWithdrawals = Num 0, wi_totalWinnings = Num 0,
                wi_kycStatus = kyc_pending, wi_lastActivity = now\<rparr>
     \<and> s' = s\<lparr>userWallets := (userWallets s) (userId \<mapsto>
                 \<lparr>wal_userId = userId, wal_balance = Num 0, wal_currency = c,
                  wal_totalDeposits = Num 0, wal_totalWithdrawals = Num 0,
                  wal_totalWinnings = Num 0, wal_kycStatus = kyc_pending,
                  wal_createdAt = now, wal_lastActivity = now\<rparr>)\<rparr>
     \<and> (\<forall>now' copt'. snd (get_wallet now' userId copt' s') = s'
           \<and> (\<exists>info. fst (get_wallet now' userId copt' s') = Inr info
                \<and> wi_userId info = userId \<and> wi_nativeBalance info = Num 0
                \<and> wi_nativeCurrency info = c \<and> wi_kycStatus info = kyc_pending
                \<and> wi_totalDeposits info = Num 0 \<and> wi_totalWithdrawals info = Num 0
                \<and> wi_totalWinnings info = Num 0 \<and> wi_lastActivity info = now))"
proof -
  let ?w = "createWallet now userId c"
  have g: "get_wallet now userId copt s =
      (Inr \<lparr>wi_userId = userId, wi_balance = Num 0, wi_currency = c,
                wi_nativeBalance = Num 0, wi_nativeCurrency = c, wi_totalDeposits = Num 0,
                wi_totalWithdrawals = Num 0, wi_totalWinnings = Num 0,
                wi_kycStatus = kyc_pending, wi_lastActivity = now\<rparr>,
       s\<lparr>userWallets := (userWallets s) (userId \<mapsto> ?w)\<rparr>)"
    using assms(1,2,3)
    by (simp add: get_wallet_def get_or_create_new createWallet_def Let_def)
  then have s': "s' = s\<lparr>userWallets := (userWallets s) (userId \<mapsto> ?w)\<rparr>"
    using assms(4) by simp
  then have stored: "userWallets s' userId = Some ?w" by simp
  have again: "snd (get_wallet now' userId copt' s') = s'
           \<and> (\<exists>info. fst (get_wallet now' userId copt' s') = Inr info
                \<and> wi_userId info = userId \<and> wi_nativeBalance info = Num 0
                \<and> wi_nativeCurrency info = c \<and> wi_kycStatus info = kyc_pending
                \<and> wi_totalDeposits info = Num 0 \<and> wi_totalWithdrawals info = Num 0
                \<and> wi_totalWinnings info = Num 0 \<and> wi_lastActivity info = now)"
    for now' copt'
    using assms(1) stored
    by (simp add: get_wallet_def get_or_create_existing createWallet_def Let_def)
  from g s' again show ?thesis by (simp add: createWallet_def)
qed





theorem get_wallet_creates_witness:
  "fst (get_wallet 5 ''u1'' (Some ''USD'') init_wallet_state) =
           Inr \<lparr>wi_userId = ''u1'', wi_balance = Num 0, wi_currency = ''USD'',
                wi_nativeBalance = Num 0, wi_nativeCurrency = ''USD'', wi_totalDeposits = Num 0,
                wi_totalWithdrawals = Num 0, wi_totalWinnings = Num 0,
                wi_kycStatus = kyc_pending, wi_lastActivity = 5\<rparr>
   \<and> (\<exists>info. fst (get_wallet 6 ''u1'' None
                     (snd (get_wallet 5 ''u1'' (Some ''USD'') init_wallet_state))) = Inr info
          \<and> wi_nativeBalance info = Num 0 \<and> wi_nativeCurrency info = ''USD'')"
proof -
  have h1: "''u1'' \<noteq> []" by simp
  have h2: "userWallets init_wallet_state ''u1'' = None" by (simp add: init_wallet_state_def)
  have h3: "''USD'' = (case Some ''USD'' of None \<Rightarrow> ''INR'' | Some x \<Rightarrow> x)" by simp
  note T = get_wallet_creates [OF h1 h2 h3 refl, of 5]
  from T [THEN conjunct1] T [THEN conjunct2, THEN conjunct2, rule_format, of 6 None]
  show ?thesis by blast
qed

lemma convert_to_INR:
  "rate_of c = Some r \<Longrightarrow>
     convertCurrency (Num a) c ''INR'' = Num (of_int \<lfloor>a / r * 100 + 1 / 2\<rfloor> / 100)"
  by (simp add: convertCurrency_def rate_of_INR Math_round_def)





lemmas wallet_eval =
  get_wallet_def get_or_create_def createWallet_def deposit_def PAYMENT_GATEWAYS_def
  deposit_methods_def withdraw_methods_def currency_keys_def CURRENCY_RATES_def
  gateway_fee_def Math_round_def floor_rat_numeral deposit_callback_def convertCurrency_def
  rate_of_def withdraw_def validateKYC_def init_wallet_state_def process_winnings_def Let_def


lemma nan_wallet_state:
  "deposit_callback 3
          (snd (deposit 2 ''txn_00000000000a'' ''u1'' 100 ''INR'' ''UPI''
            (snd (get_wallet 1 ''u1'' (Some ''XYZ'') init_wallet_state)))) =
   \<lparr>userWallets =
      [''u1'' \<mapsto> \<lparr>wal_userId = ''u1'', wal_balance = NaN, wal_currency = ''XYZ'',
                   wal_totalDeposits = NaN, wal_totalWithdrawals = Num 0,
                   wal_totalWinnings = Num 0, wal_kycStatus = kyc_pending,
                   wal_createdAt = 1, wal_lastActivity = 3\<rparr>],
    transactions =
      [''txn_00000000000a'' \<mapsto>
         \<lparr>tx_id = ''txn_00000000000a'', tx_userId = ''u1'', tx_kind = tx_deposit,
          tx_amount = Num 100, tx_netAmount = Some (Num 98), tx_currency = ''INR'',
          tx_fees = Some (Num 2), tx_gateway = Some ''razorpay'', tx_method = Some ''UPI'',
          tx_state = tx_completed, tx_timestamp = 2, tx_completedAt = Some 3,
          tx_matchId = None\<rparr>],
    pendingWithdrawals = Map.empty,
    developerWallet = \<lparr>dev_balance = Num 45280, dev_totalEarnings = Num 125840\<rparr>,
    depositTimers = []\<rparr>"
  by (simp add: wallet_eval)

text \<open>
  Claim C9.  The balance of a wallet does not stay non-negative, and the balance check
  of \<open>POST /withdraw\<close> does not hold back a withdrawal the balance does not cover.
  \<open>GET /u1?currency=XYZ\<close> stores a wallet whose native currency is not in the rate
  table (the query is not validated, unlike the \<open>currency\<close> of every \<open>POST\<close> body).  A
  deposit of 100 INR is then credited as \<open>convertCurrency(98, 'INR', 'XYZ')\<close>, which is
  \<open>NaN\<close>, so the balance becomes \<open>NaN\<close>; and a withdrawal of 5000 INR passes
  \<open>wallet.balance < walletAmount\<close>, since a comparison with \<open>NaN\<close> is false, and is stored
  as pending.
\<close>

theorem nan_balance_withdraw:
  "map_option wal_balance
     (userWallets
        (deposit_callback 3
          (snd (deposit 2 ''txn_00000000000a'' ''u1'' 100 ''INR'' ''UPI''
            (snd (get_wallet 1 ''u1'' (Some ''XYZ'') init_wallet_state))))) ''u1'') = Some NaN
   \<and> map_sum id tx_amount
       (fst (withdraw 4 ''txn_00000000000b'' ''u1'' 5000 (Some ''INR'') ''UPI''
        (deposit_callback 3
          (snd (deposit 2 ''txn_00000000000a'' ''u1'' 100 ''INR'' ''UPI''
            (snd (get_wallet 1 ''u1'' (Some ''XYZ'') init_wallet_state))))))) = Inr (Num 5000)
   \<and> map_sum id tx_state
       (fst (withdraw 4 ''txn_00000000000b'' ''u1'' 5000 (Some ''INR'') ''UPI''
        (deposit_callback 3
          (snd (deposit 2 ''txn_00000000000a'' ''u1'' 100 ''INR'' ''UPI''
            (snd (get_wallet 1 ''u1'' (Some ''XYZ'') init_wallet_state))))))) = Inr tx_pending"
  unfolding nan_wallet_state
  by (simp add: wallet_eval)

theorem nan_balance_withdraw_witness:
  "\<exists>b. map_option wal_balance
     (userWallets
        (deposit_callback 3
          (snd (deposit 2 ''txn_00000000000a'' ''u1'' 100 ''INR'' ''UPI''
            (snd (get_wallet 1 ''u1'' (Some ''XYZ'') init_wallet_state))))) ''u1'') = Some b
     \<and> \<not> js_gt b (Num 0) \<and> \<not> js_seq b (Num 0)
     \<and> fst (withdraw 4 ''txn_00000000000b'' ''u1'' 5000 (Some ''INR'') ''UPI''
        (deposit_callback 3
          (snd (deposit 2 ''txn_00000000000a'' ''u1'' 100 ''INR'' ''UPI''
            (snd (get_wallet 1 ''u1'' (Some ''XYZ'') init_wallet_state)))))) \<noteq> Inl INSUFFICIENT_BALANCE"
proof -
  from nan_balance_withdraw
  have a: "map_option wal_balance
     (userWallets
        (deposit_callback 3
          (snd (deposit 2 ''txn_00000000000a'' ''u1'' 100 ''INR'' ''UPI''
            (snd (get_wallet 1 ''u1'' (Some ''XYZ'') init_wallet_state))))) ''u1'') = Some NaN"
    and b: "map_sum id tx_state
       (fst (withdraw 4 ''txn_00000000000b'' ''u1'' 5000 (Some ''INR'') ''UPI''
        (deposit_callback 3
          (snd (deposit 2 ''txn_00000000000a'' ''u1'' 100 ''INR'' ''UPI''
            (snd (get_wallet 1 ''u1'' (Some ''XYZ'') init_wallet_state))))))) = Inr tx_pending"
    by blast+
  from b have "fst (withdraw 4 ''txn_00000000000b'' ''u1'' 5000 (Some ''INR'') ''UPI''
        (deposit_callback 3
          (snd (deposit 2 ''txn_00000000000a'' ''u1'' 100 ''INR'' ''UPI''
            (snd (get_wallet 1 ''u1'' (Some ''XYZ'') init_wallet_state)))))) \<noteq> Inl INSUFFICIENT_BALANCE"
    by auto
  moreover have "\<not> js_gt NaN (Num 0) \<and> \<not> js_seq NaN (Num 0)" by simp
  ultimately show ?thesis using a by blast
qed



section \<open>Properties of the withdrawal system\<close>


lemma set_map_set: "set (map_set k v kvs) \<subseteq> insert (k, v) (set kvs)"
  by (induction kvs) (auto split: if_splits)

lemma set_map_delete: "set (map_delete k kvs) = {kv \<in> set kvs. fst kv \<noteq> k}"
  by (auto simp: map_delete_def)

lemma distinct_map_delete: "distinct (map snd kvs) \<Longrightarrow> distinct (map snd (map_delete k kvs))"
  by (simp add: map_delete_def distinct_map_filter)

lemma distinct_map_set:
  "distinct (map snd kvs) \<Longrightarrow> v \<notin> snd ` set kvs \<Longrightarrow> distinct (map snd (map_set k v kvs))"
proof (induction kvs)
  case Nil
  then show ?case by simp
next
  case (Cons kv kvs)
  obtain k' v' where kv: "kv = (k', v')" by (cases kv)
  have sub: "snd ` set (map_set k v kvs) \<subseteq> insert v (snd ` set kvs)"
    using set_map_set [of k v kvs] by force
  from Cons kv sub show ?case by auto
qed

lemma wd_inv_init: "wd_inv init_withdrawal_state"
  by (simp add: wd_inv_def init_withdrawal_state_def)




lemma inv_request:
  assumes "wd_inv s" and "wd_status x = pending_approval" and "wd_status y = pending_approval"
  shows "wd_inv (s\<lparr>heap := heap s @ [x, y],
            withdrawalRequests := map_set wid (length (heap s)) (withdrawalRequests s),
            processingQueue := map_set wid (Suc (length (heap s))) (processingQueue s)\<rparr>)"
proof -
  let ?n = "length (heap s)"
  let ?h = "heap s @ [x, y]"
  let ?R = "map_set wid ?n (withdrawalRequests s)"
  let ?Q = "map_set wid (Suc ?n) (processingQueue s)"
  have R: "\<And>ka. ka \<in> set ?R \<Longrightarrow> ka = (wid, ?n) \<or> ka \<in> set (withdrawalRequests s)"
    using set_map_set [of wid ?n "withdrawalRequests s"] by auto
  have Q: "\<And>kb. kb \<in> set ?Q \<Longrightarrow> kb = (wid, Suc ?n) \<or> kb \<in> set (processingQueue s)"
    using set_map_set [of wid "Suc ?n" "processingQueue s"] by auto
  have Rs: "snd ` set ?R \<subseteq> insert ?n (snd ` set (withdrawalRequests s))"
    using set_map_set [of wid ?n "withdrawalRequests s"] by force
  from assms(1) have
    q: "\<And>kb. kb \<in> set (processingQueue s) \<Longrightarrow>
        snd kb < ?n \<and> wd_status (heap s ! snd kb) = pending_approval
        \<and> snd kb \<notin> snd ` set (withdrawalRequests s) \<and> snd kb \<notin> set (paymentTimers s)"
    and dq: "distinct (map snd (processingQueue s))"
    and t: "\<And>b. b \<in> set (paymentTimers s) \<Longrightarrow> b < ?n \<and> wd_status (heap s ! b) = processing"
    and dt: "distinct (paymentTimers s)"
    and r: "\<And>ka. ka \<in> set (withdrawalRequests s) \<Longrightarrow> snd ka < ?n"
    and c: "\<And>ka. ka \<in> set (completedWithdrawals s) \<Longrightarrow> snd ka < ?n"
    unfolding wd_inv_def by blast+
  have 1: "snd kb < length ?h \<and> wd_status (?h ! snd kb) = pending_approval
        \<and> snd kb \<notin> snd ` set ?R \<and> snd kb \<notin> set (paymentTimers s)"
    if "kb \<in> set ?Q" for kb
  proof -
    from Q [OF that] show ?thesis
    proof
      assume kb: "kb = (wid, Suc ?n)"
      have "Suc ?n \<notin> snd ` set ?R" using Rs r by force
      moreover have "Suc ?n \<notin> set (paymentTimers s)" using t by force
      ultimately show ?thesis using kb assms(3) by (simp add: nth_append)
    next
      assume kb: "kb \<in> set (processingQueue s)"
      from q [OF kb] have "snd kb \<notin> snd ` set ?R" using Rs by auto
      with q [OF kb] show ?thesis by (simp add: nth_append)
    qed
  qed
  have 2: "distinct (map snd ?Q)"
  proof (rule distinct_map_set [OF dq])
    show "Suc ?n \<notin> snd ` set (processingQueue s)" using q by force
  qed
  have 3: "b < length ?h \<and> wd_status (?h ! b) = processing" if "b \<in> set (paymentTimers s)" for b
    using t [OF that] by (simp add: nth_append)
  have 5: "snd ka < length ?h" if "ka \<in> set ?R" for ka
  proof -
    from R [OF that] show ?thesis
    proof
      assume "ka = (wid, ?n)" then show ?thesis by simp
    next
      assume "ka \<in> set (withdrawalRequests s)"
      from r [OF this] show ?thesis by simp
    qed
  qed
  have 6: "snd ka < length ?h" if "ka \<in> set (completedWithdrawals s)" for ka
    using c [OF that] by simp
  show ?thesis
    unfolding wd_inv_def using 1 2 3 dt 5 6 by simp
qed




lemma distinct_snd_eq:
  "distinct (map snd kvs) \<Longrightarrow> x \<in> set kvs \<Longrightarrow> y \<in> set kvs \<Longrightarrow> snd x = snd y \<Longrightarrow> x = y"
  by (auto simp: distinct_map dest: inj_onD)

lemma inv_cancel:
  assumes "wd_inv s"
    and sel: "map_of (withdrawalRequests s) wid = Some a
              \<or> (map_of (withdrawalRequests s) wid = None \<and> map_of (processingQueue s) wid = Some a)"
    and a: "a < length (heap s)"
    and st: "wd_status (heap s ! a) = pending_approval \<or> wd_status (heap s ! a) = approved"
  shows "wd_inv (s\<lparr>heap := (heap s)[a := w'],
            processingQueue := map_delete wid (processingQueue s),
            withdrawalRequests := map_delete wid (withdrawalRequests s),
            completedWithdrawals := map_set wid a (completedWithdrawals s)\<rparr>)"
proof -
  let ?n = "length (heap s)"
  let ?h = "(heap s)[a := w']"
  let ?Q = "map_delete wid (processingQueue s)"
  let ?R = "map_delete wid (withdrawalRequests s)"
  let ?C = "map_set wid a (completedWithdrawals s)"
  from assms(1) have
    q: "\<And>kb. kb \<in> set (processingQueue s) \<Longrightarrow>
        snd kb < ?n \<and> wd_status (heap s ! snd kb) = pending_approval
        \<and> snd kb \<notin> snd ` set (withdrawalRequests s) \<and> snd kb \<notin> set (paymentTimers s)"
    and dq: "distinct (map snd (processingQueue s))"
    and t: "\<And>b. b \<in> set (paymentTimers s) \<Longrightarrow> b < ?n \<and> wd_status (heap s ! b) = processing"
    and dt: "distinct (paymentTimers s)"
    and r: "\<And>ka. ka \<in> set (withdrawalRequests s) \<Longrightarrow> snd ka < ?n"
    and c: "\<And>ka. ka \<in> set (completedWithdrawals s) \<Longrightarrow> snd ka < ?n"
    unfolding wd_inv_def by blast+
  have Rs: "set ?R \<subseteq> set (withdrawalRequests s)" by (auto simp: set_map_delete)
  have ne: "snd kb \<noteq> a" if kb: "kb \<in> set ?Q" for kb
  proof -
    from kb have kq: "kb \<in> set (processingQueue s)" and kf: "fst kb \<noteq> wid"
      by (auto simp: set_map_delete)
    from sel show ?thesis
    proof
      assume "map_of (withdrawalRequests s) wid = Some a"
      then have "(wid, a) \<in> set (withdrawalRequests s)" by (rule map_of_SomeD)
      then have "a \<in> snd ` set (withdrawalRequests s)" by force
      with q [OF kq] show ?thesis by auto
    next
      assume "map_of (withdrawalRequests s) wid = None \<and> map_of (processingQueue s) wid = Some a"
      then have wq: "(wid, a) \<in> set (processingQueue s)" by (auto dest: map_of_SomeD)
      show ?thesis
      proof
        assume "snd kb = a"
        then have "kb = (wid, a)" using distinct_snd_eq [OF dq kq wq] by simp
        with kf show False by simp
      qed
    qed
  qed
  have 1: "snd kb < length ?h \<and> wd_status (?h ! snd kb) = pending_approval
        \<and> snd kb \<notin> snd ` set ?R \<and> snd kb \<notin> set (paymentTimers s)"
    if kb: "kb \<in> set ?Q" for kb
  proof -
    from kb have kq: "kb \<in> set (processingQueue s)" by (auto simp: set_map_delete)
    from q [OF kq] Rs have "snd kb \<notin> snd ` set ?R" by auto
    with q [OF kq] ne [OF kb] show ?thesis by simp
  qed
  have 2: "distinct (map snd ?Q)" using dq by (rule distinct_map_delete)
  have 3: "b < length ?h \<and> wd_status (?h ! b) = processing" if "b \<in> set (paymentTimers s)" for b
  proof -
    from t [OF that] st have "b \<noteq> a" by auto
    with t [OF that] show ?thesis by simp
  qed
  have 5: "snd ka < length ?h" if "ka \<in> set ?R" for ka
    using r [of ka] that Rs by auto
  have 6: "snd ka < length ?h" if "ka \<in> set ?C" for ka
  proof -
    from that set_map_set [of wid a "completedWithdrawals s"]
    have "ka = (wid, a) \<or> ka \<in> set (completedWithdrawals s)" by auto
    then show ?thesis
    proof
      assume "ka = (wid, a)" with a show ?thesis by simp
    next
      assume "ka \<in> set (completedWithdrawals s)"
      from c [OF this] show ?thesis by simp
    qed
  qed
  show ?thesis
    unfolding wd_inv_def using 1 2 3 dt 5 6 by simp
qed

lemma inv_approve:
  assumes "wd_inv s" and b: "map_of (processingQueue s) wid = Some b"
    and st: "wd_status w' = processing"
  shows "wd_inv (s\<lparr>heap := (heap s)[b := w'],
            processingQueue := map_delete wid (processingQueue s),
            withdrawalRequests := map_set wid b (withdrawalRequests s),
            paymentTimers := paymentTimers s @ [b]\<rparr>)"
proof -
  let ?n = "length (heap s)"
  let ?h = "(heap s)[b := w']"
  let ?Q = "map_delete wid (processingQueue s)"
  let ?R = "map_set wid b (withdrawalRequests s)"
  from assms(1) have
    q: "\<And>kb. kb \<in> set (processingQueue s) \<Longrightarrow>
        snd kb < ?n \<and> wd_status (heap s ! snd kb) = pending_approval
        \<and> snd kb \<notin> snd ` set (withdrawalRequests s) \<and> snd kb \<notin> set (paymentTimers s)"
    and dq: "distinct (map snd (processingQueue s))"
    and t: "\<And>b. b \<in> set (paymentTimers s) \<Longrightarrow> b < ?n \<and> wd_status (heap s ! b) = processing"
    and dt: "distinct (paymentTimers s)"
    and r: "\<And>ka. ka \<in> set (withdrawalRequests s) \<Longrightarrow> snd ka < ?n"
    and c: "\<And>ka. ka \<in> set (completedWithdrawals s) \<Longrightarrow> snd ka < ?n"
    unfolding wd_inv_def by blast+
  from b have wq: "(wid, b) \<in> set (processingQueue s)" by (rule map_of_SomeD)
  from q [OF wq] have bn: "b < ?n" and bt: "b \<notin> set (paymentTimers s)" by simp_all
  have Rs: "snd ` set ?R \<subseteq> insert b (snd ` set (withdrawalRequests s))"
    using set_map_set [of wid b "withdrawalRequests s"] by force
  have ne: "snd kb \<noteq> b" if kb: "kb \<in> set ?Q" for kb
  proof
    from kb have kq: "kb \<in> set (processingQueue s)" and kf: "fst kb \<noteq> wid"
      by (auto simp: set_map_delete)
    assume "snd kb = b"
    then have "kb = (wid, b)" using distinct_snd_eq [OF dq kq wq] by simp
    with kf show False by simp
  qed
  have 1: "snd kb < length ?h \<and> wd_status (?h ! snd kb) = pending_approval
        \<and> snd kb \<notin> snd ` set ?R \<and> snd kb \<notin> set (paymentTimers s @ [b])"
    if kb: "kb \<in> set ?Q" for kb
  proof -
    from kb have kq: "kb \<in> set (processingQueue s)" by (auto simp: set_map_delete)
    from q [OF kq] Rs ne [OF kb] have "snd kb \<notin> snd ` set ?R" by auto
    with q [OF kq] ne [OF kb] show ?thesis by simp
  qed
  have 2: "distinct (map snd ?Q)" using dq by (rule distinct_map_delete)
  have 3: "x < length ?h \<and> wd_status (?h ! x) = processing"
    if "x \<in> set (paymentTimers s @ [b])" for x
  proof (cases "x = b")
    case True
    with bn st show ?thesis by simp
  next
    case False
    with that have "x \<in> set (paymentTimers s)" by simp
    from t [OF this] False show ?thesis by simp
  qed
  have 4: "distinct (paymentTimers s @ [b])" using dt bt by simp
  have 5: "snd ka < length ?h" if "ka \<in> set ?R" for ka
  proof -
    from that set_map_set [of wid b "withdrawalRequests s"]
    have "ka = (wid, b) \<or> ka \<in> set (withdrawalRequests s)" by auto
    then show ?thesis
    proof
      assume "ka = (wid, b)" with bn show ?thesis by simp
    next
      assume "ka \<in> set (withdrawalRequests s)"
      from r [OF this] show ?thesis by simp
    qed
  qed
  have 6: "snd ka < length ?h" if "ka \<in> set (completedWithdrawals s)" for ka
    using c [OF that] by simp
  show ?thesis
    unfolding wd_inv_def using 1 2 3 4 5 6 by simp
qed

lemma inv_callback:
  assumes "wd_inv s" and ts: "paymentTimers s = b # ts"
  shows "wd_inv (s\<lparr>heap := (heap s)[b := w'],
            paymentTimers := ts,
            withdrawalRequests := map_delete k (withdrawalRequests s),
            completedWithdrawals := map_set k b (completedWithdrawals s)\<rparr>)"
proof -
  let ?n = "length (heap s)"
  let ?h = "(heap s)[b := w']"
  let ?R = "map_delete k (withdrawalRequests s)"
  let ?C = "map_set k b (completedWithdrawals s)"
  from assms(1) have
    q: "\<And>kb. kb \<in> set (processingQueue s) \<Longrightarrow>
        snd kb < ?n \<and> wd_status (heap s ! snd kb) = pending_approval
        \<and> snd kb \<notin> snd ` set (withdrawalRequests s) \<and> snd kb \<notin> set (paymentTimers s)"
    and dq: "distinct (map snd (processingQueue s))"
    and t: "\<And>b. b \<in> set (paymentTimers s) \<Longrightarrow> b < ?n \<and> wd_status (heap s ! b) = processing"
    and dt: "distinct (paymentTimers s)"
    and r: "\<And>ka. ka \<in> set (withdrawalRequests s) \<Longrightarrow> snd ka < ?n"
    and c: "\<And>ka. ka \<in> set (completedWithdrawals s) \<Longrightarrow> snd ka < ?n"
    unfolding wd_inv_def by blast+
  from ts t [of b] have bn: "b < ?n" by simp
  from ts dt have bts: "b \<notin> set ts" and dts: "distinct ts" by simp_all
  have Rs: "set ?R \<subseteq> set (withdrawalRequests s)" by (auto simp: set_map_delete)
  have 1: "snd kb < length ?h \<and> wd_status (?h ! snd kb) = pending_approval
        \<and> snd kb \<notin> snd ` set ?R \<and> snd kb \<notin> set ts"
    if kq: "kb \<in> set (processingQueue s)" for kb
  proof -
    from q [OF kq] ts have ne: "snd kb \<noteq> b" and nts: "snd kb \<notin> set ts" by auto
    from q [OF kq] Rs have "snd kb \<notin> snd ` set ?R" by auto
    with q [OF kq] ne nts show ?thesis by simp
  qed
  have 3: "x < length ?h \<and> wd_status (?h ! x) = processing" if "x \<in> set ts" for x
  proof -
    from that bts have "x \<noteq> b" by auto
    moreover from that ts have "x \<in> set (paymentTimers s)" by simp
    ultimately show ?thesis using t [of x] by simp
  qed
  have 5: "snd ka < length ?h" if "ka \<in> set ?R" for ka
    using r [of ka] that Rs by auto
  have 6: "snd ka < length ?h" if "ka \<in> set ?C" for ka
  proof -
    from that set_map_set [of k b "completedWithdrawals s"]
    have "ka = (k, b) \<or> ka \<in> set (completedWithdrawals s)" by auto
    then show ?thesis
    proof
      assume "ka = (k, b)" with bn show ?thesis by simp
    next
      assume "ka \<in> set (completedWithdrawals s)"
      from c [OF this] show ?thesis by simp
    qed
  qed
  show ?thesis
    unfolding wd_inv_def using 1 dq 3 dts 5 6 by simp
qed




lemma request_state:
  "snd (request_withdrawal now wid userId amount currency meth ok kycOpt s) = s
   \<or> (\<exists>x y. wd_status x = pending_approval \<and> wd_status y = pending_approval
         \<and> snd (request_withdrawal now wid userId amount currency meth ok kycOpt s) =
             s\<lparr>heap := heap s @ [x, y],
               withdrawalRequests := map_set wid (length (heap s)) (withdrawalRequests s),
               processingQueue := map_set wid (Suc (length (heap s))) (processingQueue s)\<rparr>)"
proof -
  let ?fee = "processing_fee amount (tbl_get processingFees meth)"
  let ?x = "\<lparr>wd_id = wid, wd_userId = userId, wd_amount = amount,
             wd_netAmount = js_sub (Num amount) ?fee,
             wd_processingFee = ?fee, wd_currency = currency,
             wd_withdrawalMethod = meth, wd_status = pending_approval,
             wd_kycStatus = (case kycOpt of None \<Rightarrow> kyc_pending | Some k \<Rightarrow> k),
             wd_timestamp = now, wd_queuePosition = None,
             wd_priority = None, wd_cancelledAt = None, wd_cancelledBy = None,
             wd_approvedAt = None, wd_approvedBy = None, wd_processingStarted = None,
             wd_gatewayReference = None, wd_completedAt = None, wd_failedAt = None\<rparr>"
  let ?y = "?x\<lparr>wd_queuePosition := Some (length (processingQueue s) + 1),
               wd_priority :=
                 Some (if js_gt (convertCurrency (Num amount) currency ''INR'') (Num 50000)
                       then high else normal)\<rparr>"
  have "snd (request_withdrawal now wid userId amount currency meth ok kycOpt s) = s
    \<or> snd (request_withdrawal now wid userId amount currency meth ok kycOpt s) =
             s\<lparr>heap := heap s @ [?x, ?y],
               withdrawalRequests := map_set wid (length (heap s)) (withdrawalRequests s),
               processingQueue := map_set wid (Suc (length (heap s))) (processingQueue s)\<rparr>"
    by (simp add: request_withdrawal_def Let_def)
  moreover have "wd_status ?x = pending_approval" "wd_status ?y = pending_approval"
    by simp_all
  ultimately show ?thesis by blast
qed

lemma cancel_state:
  "snd (cancel_withdrawal now wid userId s) = s
   \<or> (\<exists>a. (map_of (withdrawalRequests s) wid = Some a
              \<or> (map_of (withdrawalRequests s) wid = None
                  \<and> map_of (processingQueue s) wid = Some a))
         \<and> a < length (heap s)
         \<and> (wd_status (heap s ! a) = pending_approval \<or> wd_status (heap s ! a) = approved)
         \<and> snd (cancel_withdrawal now wid userId s) =
             s\<lparr>heap := (heap s)[a := (heap s ! a)\<lparr>wd_status := cancelled,
                                      wd_cancelledAt := Some now,
                                      wd_cancelledBy := Some userId\<rparr>],
               processingQueue := map_delete wid (processingQueue s),
               withdrawalRequests := map_delete wid (withdrawalRequests s),
               completedWithdrawals := map_set wid a (completedWithdrawals s)\<rparr>)"
  by (auto simp: cancel_withdrawal_def deref_def split: option.splits if_splits)

lemma approve_run:
  "b < length (heap s) \<Longrightarrow>
   \<exists>w'. wd_status w' = processing
     \<and> processPayment now gwref b (mark_approved now wid adminId b (heap s ! b) s) =
         s\<lparr>heap := (heap s)[b := w'],
           processingQueue := map_delete wid (processingQueue s),
           withdrawalRequests := map_set wid b (withdrawalRequests s),
           paymentTimers := paymentTimers s @ [b]\<rparr>"
proof -
  assume b: "b < length (heap s)"
  let ?w = "(heap s ! b)\<lparr>wd_status := approved, wd_approvedAt := Some now,
                           wd_approvedBy := Some adminId\<rparr>
              \<lparr>wd_status := processing, wd_processingStarted := Some now,
               wd_gatewayReference := Some gwref\<rparr>"
  have "processPayment now gwref b (mark_approved now wid adminId b (heap s ! b) s) =
         s\<lparr>heap := (heap s)[b := ?w],
           processingQueue := map_delete wid (processingQueue s),
           withdrawalRequests := map_set wid b (withdrawalRequests s),
           paymentTimers := paymentTimers s @ [b]\<rparr>"
    using b by (simp add: processPayment_def mark_approved_def deref_def)
  moreover have "wd_status ?w = processing" by simp
  ultimately show ?thesis by blast
qed

lemma approve_state:
  "snd (approve_withdrawal now gwref wid adminId s) = s
   \<or> (\<exists>b w'. map_of (processingQueue s) wid = Some b \<and> b < length (heap s)
         \<and> wd_status w' = processing
         \<and> snd (approve_withdrawal now gwref wid adminId s) =
             s\<lparr>heap := (heap s)[b := w'],
               processingQueue := map_delete wid (processingQueue s),
               withdrawalRequests := map_set wid b (withdrawalRequests s),
               paymentTimers := paymentTimers s @ [b]\<rparr>)"
proof (cases "\<not> valid_withdrawalId wid \<or> adminId = []")
  case True
  then show ?thesis by (auto simp: approve_withdrawal_def)
next
  case valid: False
  show ?thesis
  proof (cases "map_of (processingQueue s) wid")
    case None
    with valid show ?thesis by (simp add: approve_withdrawal_def)
  next
    case (Some b)
    show ?thesis
    proof (cases "b < length (heap s)")
      case True
      from approve_run [OF True, of now gwref wid adminId] obtain w' where
        "wd_status w' = processing"
        "processPayment now gwref b (mark_approved now wid adminId b (heap s ! b) s) =
         s\<lparr>heap := (heap s)[b := w'],
           processingQueue := map_delete wid (processingQueue s),
           withdrawalRequests := map_set wid b (withdrawalRequests s),
           paymentTimers := paymentTimers s @ [b]\<rparr>" by blast
      moreover have "snd (approve_withdrawal now gwref wid adminId s) =
          processPayment now gwref b (mark_approved now wid adminId b (heap s ! b) s)"
        using valid Some True by (simp add: approve_withdrawal_def deref_def)
      ultimately show ?thesis using Some True by auto
    next
      case False
      with valid Some show ?thesis by (simp add: approve_withdrawal_def deref_def)
    qed
  qed
qed

lemma callback_state:
  "payment_callback now isSuccess s = s
   \<or> (\<exists>b ts. paymentTimers s = b # ts \<and> \<not> b < length (heap s)
         \<and> payment_callback now isSuccess s = s\<lparr>paymentTimers := ts\<rparr>)
   \<or> (\<exists>b ts w' k. paymentTimers s = b # ts \<and> b < length (heap s)
         \<and> wd_status w' = (if isSuccess then completed else failed)
         \<and> payment_callback now isSuccess s =
             s\<lparr>heap := (heap s)[b := w'],
               paymentTimers := ts,
               withdrawalRequests := map_delete k (withdrawalRequests s),
               completedWithdrawals := map_set k b (completedWithdrawals s)\<rparr>)"
proof (cases "paymentTimers s")
  case Nil
  then show ?thesis by (simp add: payment_callback_def)
next
  case (Cons b ts)
  show ?thesis
  proof (cases "b < length (heap s)")
    case True
    let ?w = "if isSuccess
              then (heap s ! b)\<lparr>wd_status := completed, wd_completedAt := Some now\<rparr>
              else (heap s ! b)\<lparr>wd_status := failed, wd_failedAt := Some now\<rparr>"
    have "wd_status ?w = (if isSuccess then completed else failed)" by simp
    moreover have "payment_callback now isSuccess s =
        s\<lparr>heap := (heap s)[b := ?w], paymentTimers := ts,
          withdrawalRequests := map_delete (wd_id ?w) (withdrawalRequests s),
          completedWithdrawals := map_set (wd_id ?w) b (completedWithdrawals s)\<rparr>"
      using Cons True by (simp add: payment_callback_def deref_def Let_def)
    ultimately show ?thesis using Cons True by blast
  next
    case False
    with Cons show ?thesis by (simp add: payment_callback_def deref_def)
  qed
qed




lemma wd_step_inv: "wd_inv s \<Longrightarrow> wd_inv (wd_step op s)"
proof (cases op)
  case (Request now wid userId amount currency meth ok kycOpt)
  assume "wd_inv s"
  with request_state [of now wid userId amount currency meth ok kycOpt s] Request
  show ?thesis by (auto simp: inv_request)
next
  case (Cancel now wid userId)
  assume "wd_inv s"
  with cancel_state [of now wid userId s] Cancel
  show ?thesis by (auto simp: inv_cancel)
next
  case (Approve now gwref wid adminId)
  assume "wd_inv s"
  with approve_state [of now gwref wid adminId s] Approve
  show ?thesis by (auto simp: inv_approve)
next
  case (GatewayCallback now isSuccess)
  assume inv: "wd_inv s"
  from callback_state [of now isSuccess s] consider
    "payment_callback now isSuccess s = s"
    | b ts where "paymentTimers s = b # ts" "payment_callback now isSuccess s = s\<lparr>paymentTimers := ts\<rparr>"
    | b ts w' k where "paymentTimers s = b # ts"
        "payment_callback now isSuccess s =
             s\<lparr>heap := (heap s)[b := w'],
               paymentTimers := ts,
               withdrawalRequests := map_delete k (withdrawalRequests s),
               completedWithdrawals := map_set k b (completedWithdrawals s)\<rparr>"
    by blast
  then show ?thesis
  proof cases
    case 1
    with inv GatewayCallback show ?thesis by simp
  next
    case 2
    from inv 2(1) have "wd_inv (s\<lparr>paymentTimers := ts\<rparr>)"
      unfolding wd_inv_def by auto
    with 2 GatewayCallback show ?thesis by simp
  next
    case 3
    from inv_callback [OF inv 3(1), where w' = w' and k = k] 3(2) GatewayCallback show ?thesis by simp
  qed
qed

lemma wd_run_snoc: "wd_run (ops @ [op]) = wd_step op (wd_run ops)"
  by (simp add: wd_run_def)

lemma wd_run_inv: "wd_inv (wd_run ops)"
proof (induction ops rule: rev_induct)
  case Nil
  show ?case by (simp add: wd_run_def wd_inv_init)
next
  case (snoc op ops)
  then show ?case by (simp add: wd_run_snoc wd_step_inv)
qed

lemma wd_advance_refl: "wd_advance x x"
  by (cases x) simp_all

lemma wd_step_advance:
  assumes inv: "wd_inv s" and a: "a < length (heap s)"
  shows "a < length (heap (wd_step op s))
         \<and> wd_advance (wd_status (heap s ! a)) (wd_status (heap (wd_step op s) ! a))"
proof (cases op)
  case (Request now wid userId amount currency meth ok kycOpt)
  with request_state [of now wid userId amount currency meth ok kycOpt s] a
  show ?thesis by (auto simp: nth_append wd_advance_refl)
next
  case (Cancel now wid userId)
  from cancel_state [of now wid userId s] consider
    "snd (cancel_withdrawal now wid userId s) = s"
    | c where "c < length (heap s)"
        "wd_status (heap s ! c) = pending_approval \<or> wd_status (heap s ! c) = approved"
        "heap (snd (cancel_withdrawal now wid userId s)) =
           (heap s)[c := (heap s ! c)\<lparr>wd_status := cancelled, wd_cancelledAt := Some now,
                                      wd_cancelledBy := Some userId\<rparr>]"
    by auto
  then show ?thesis
  proof cases
    case 1
    with Cancel a show ?thesis by (simp add: wd_advance_refl)
  next
    case 2
    with Cancel a show ?thesis
      by (cases "a = c") (auto simp: wd_advance_refl)
  qed
next
  case (Approve now gwref wid adminId)
  from approve_state [of now gwref wid adminId s] consider
    "snd (approve_withdrawal now gwref wid adminId s) = s"
    | b w' where "map_of (processingQueue s) wid = Some b" "b < length (heap s)"
        "wd_status w' = processing"
        "heap (snd (approve_withdrawal now gwref wid adminId s)) = (heap s)[b := w']"
    by auto
  then show ?thesis
  proof cases
    case 1
    with Approve a show ?thesis by (simp add: wd_advance_refl)
  next
    case 2
    from 2(1) have "(wid, b) \<in> set (processingQueue s)" by (rule map_of_SomeD)
    with inv have "wd_status (heap s ! b) = pending_approval"
      unfolding wd_inv_def by force
    with 2 Approve a show ?thesis
      by (cases "a = b") (auto simp: wd_advance_refl)
  qed
next
  case (GatewayCallback now isSuccess)
  from callback_state [of now isSuccess s] consider
    "heap (payment_callback now isSuccess s) = heap s"
    | b ts w' where "paymentTimers s = b # ts" "b < length (heap s)"
        "wd_status w' = (if isSuccess then completed else failed)"
        "heap (payment_callback now isSuccess s) = (heap s)[b := w']"
    by auto
  then show ?thesis
  proof cases
    case 1
    with GatewayCallback a show ?thesis by (simp add: wd_advance_refl)
  next
    case 2
    from inv 2(1) have "wd_status (heap s ! b) = processing"
      unfolding wd_inv_def by simp
    with 2 GatewayCallback a show ?thesis
      by (cases "a = b") (auto simp: wd_advance_refl)
  qed
qed

lemma wd_step_new:
  assumes "length (heap s) \<le> a" and "a < length (heap (wd_step op s))"
  shows "wd_status (heap (wd_step op s) ! a) = pending_approval"
proof (cases op)
  case (Request now wid userId amount currency meth ok kycOpt)
  from request_state [of now wid userId amount currency meth ok kycOpt s] consider
    "snd (request_withdrawal now wid userId amount currency meth ok kycOpt s) = s"
    | x y where "wd_status x = pending_approval" "wd_status y = pending_approval"
        "heap (snd (request_withdrawal now wid userId amount currency meth ok kycOpt s))
           = heap s @ [x, y]"
    by auto
  then show ?thesis
  proof cases
    case 1
    with Request assms show ?thesis by simp
  next
    case 2
    with Request assms show ?thesis
      by (auto simp: nth_append nth_Cons split: nat.splits)
  qed
next
  case (Cancel now wid userId)
  with cancel_state [of now wid userId s] assms show ?thesis by auto
next
  case (Approve now gwref wid adminId)
  with approve_state [of now gwref wid adminId s] assms show ?thesis by auto
next
  case (GatewayCallback now isSuccess)
  with callback_state [of now isSuccess s] assms show ?thesis by auto
qed




lemma status_at_Some: "status_at s a = Some x \<longleftrightarrow> a < length (heap s) \<and> wd_status (heap s ! a) = x"
  by (auto simp: status_at_def deref_def)

lemma status_at_None: "status_at s a = None \<longleftrightarrow> \<not> a < length (heap s)"
  by (auto simp: status_at_def deref_def)

lemma status_step:
  assumes "wd_inv s" and "status_at s a = Some x"
  shows "\<exists>y. status_at (wd_step op s) a = Some y \<and> wd_advance x y"
  using wd_step_advance [OF assms(1), of a op] assms(2)
  by (simp add: status_at_Some)

lemma status_step_new:
  assumes "status_at s a = None"
  shows "status_at (wd_step op s) a = None \<or> status_at (wd_step op s) a = Some pending_approval"
proof (cases "a < length (heap (wd_step op s))")
  case True
  from assms have "length (heap s) \<le> a" by (simp add: status_at_None)
  from wd_step_new [OF this True] True show ?thesis by (simp add: status_at_Some)
next
  case False
  then show ?thesis by (simp add: status_at_None)
qed

lemma final_step:
  assumes "wd_inv s" and "status_at s a = Some x" and "x = completed \<or> x = failed \<or> x = cancelled"
  shows "status_at (wd_step op s) a = Some x"
  using status_step [OF assms(1,2), of op] assms(3) by auto

lemma final_steps:
  assumes "wd_inv s" and "status_at s a = Some x" and "x = completed \<or> x = failed \<or> x = cancelled"
  shows "status_at (foldl (\<lambda>s op. wd_step op s) s later) a = Some x"
  using assms
proof (induction later arbitrary: s)
  case Nil
  then show ?case by simp
next
  case (Cons op later)
  from Cons.prems have "wd_inv (wd_step op s)" by (simp add: wd_step_inv)
  moreover from Cons.prems have "status_at (wd_step op s) a = Some x" by (simp add: final_step)
  ultimately show ?case using Cons.IH Cons.prems(3) by simp
qed

lemma wd_run_append: "wd_run (ops @ later) = foldl (\<lambda>s op. wd_step op s) (wd_run ops) later"
  by (simp add: wd_run_def)

lemma final_run:
  assumes "status_at (wd_run ops) a = Some x" and "x = completed \<or> x = failed \<or> x = cancelled"
  shows "status_at (wd_run (ops @ later)) a = Some x"
  unfolding wd_run_append using wd_run_inv assms by (rule final_steps)

lemma approve_marks:
  assumes "b < length (heap s)"
  shows "status_at (mark_approved now wid adminId b w s) b = Some approved"
    and "status_at (processPayment now gwref b (mark_approved now wid adminId b w s)) b
           = Some processing"
  using assms
  by (simp_all add: status_at_Some mark_approved_def processPayment_def deref_def)

lemma callback_marks:
  assumes "wd_inv s" and "paymentTimers s = b # ts"
  shows "status_at s b = Some processing"
    and "status_at (payment_callback now isSuccess s) b
           = Some (if isSuccess then completed else failed)"
proof -
  from assms have b: "b < length (heap s)" and p: "wd_status (heap s ! b) = processing"
    unfolding wd_inv_def by simp_all
  then show "status_at s b = Some processing" by (simp add: status_at_Some)
  from assms(2) b show "status_at (payment_callback now isSuccess s) b
           = Some (if isSuccess then completed else failed)"
    by (simp add: payment_callback_def deref_def status_at_Some Let_def)
qed







lemmas withdrawal_eval =
  wd_run_def request_withdrawal_def cancel_withdrawal_def approve_withdrawal_def
  payment_callback_def processPayment_def mark_approved_def valid_withdrawalId_def alnum_def
  deref_def map_values_def List.map_filter_def tbl_get_def minAmount_def maxAmount_def
  processingFees_def processing_fee_def convertCurrency_def rate_of_def CURRENCY_RATES_def
  currency_keys_def request_methods_def init_withdrawal_state_def Math_round_def
  floor_rat_numeral status_at_def map_delete_def Let_def

lemma requested_status:
  "status_at (wd_run [Request 1000 ''wd_00000000000a'' ''u1'' 500 ''INR'' ''UPI'' True None]) 1
     = Some pending_approval"
  by (simp add: withdrawal_eval)

lemma failed_status:
  "status_at (wd_run [Request 1000 ''wd_00000000000a'' ''u1'' 500 ''INR'' ''UPI'' True None,
                      Approve 2000 ''gw_00000000000a'' ''wd_00000000000a'' ''admin'',
                      GatewayCallback 3000 False]) 1
     = Some failed"
  by (simp add: withdrawal_eval)









section \<open>Stored matches\<close>

text \<open>
  Every match in \<open>activeMatches\<close> or \<open>matchHistory\<close>, after any run of the match
  operations, has two player entries, a positive bet amount and the 60 second window.
  The two entries may carry the same player id, as the self-match shows.
\<close>


lemma bet_positive:
  assumes "c \<in> set currency_keys"
  shows "js_gt (convertCurrency (Num 10) ''INR'' c) (Num 0)"
proof -
  have all: "list_all (\<lambda>(c, r). 0 < of_int (Math_round (10 * r * 100)) / (100::rat)) CURRENCY_RATES"
    unfolding CURRENCY_RATES_def Math_round_def by (simp add: floor_rat_numeral)
  from assms obtain r where r: "rate_of c = Some r" using rate_of_key by blast
  then have "(c, r) \<in> set CURRENCY_RATES" unfolding rate_of_def by (rule map_of_SomeD)
  with all have "0 < of_int (Math_round (10 * r * 100)) / (100::rat)"
    unfolding list_all_iff by blast
  with r show ?thesis by (simp add: convert_from_INR)
qed

lemma new_match_two_player:
  assumes "c \<in> set currency_keys" and "g_betAmount cfg = 10" and "g_duration cfg = 60"
  shows "two_player_match (new_match mid now g c cfg pid opp)"
  using assms bet_positive [OF assms(1)]
  by (simp add: two_player_match_def new_match_def)

lemma stored_ok_find:
  assumes "stored_ok s"
  shows "stored_ok (snd (find_match mid now g pid copt s))"
proof (cases "\<exists>opp bet. fst (find_match mid now g pid copt s) = Inr (MatchFound mid opp bet)")
  case True
  then obtain opp bet where
    f: "find_match mid now g pid copt s
          = (Inr (MatchFound mid opp bet), snd (find_match mid now g pid copt s))"
    by (metis prod.collapse)
  let ?c = "case copt of None \<Rightarrow> ''INR'' | Some c \<Rightarrow> c"
  from find_match_found [OF f] obtain cfg0 o' rest where
    v: "g \<in> set game_types" "pid \<noteq> []"
       "case copt of None \<Rightarrow> True | Some c \<Rightarrow> c \<in> set currency_keys"
    and nf: "find (in_match pid) (map snd (activeMatches s)) = None"
    and wq: "waitingPlayers s (waitingKey g ?c) = Some (o' # rest)"
    by blast
  obtain cfg where cfg: "map_of GAME_CONFIGS g = Some cfg" "g_betAmount cfg = 10"
      "g_duration cfg = 60"
    using game_config_of [OF v(1)] by blast
  have ck: "?c \<in> set currency_keys"
    using v(3) by (cases copt) (simp_all add: currency_keys_def CURRENCY_RATES_def)
  let ?m = "new_match mid now g ?c cfg pid (w_id o')"
  have a: "activeMatches (snd (find_match mid now g pid copt s)) = map_set mid ?m (activeMatches s)"
    and h: "matchHistory (snd (find_match mid now g pid copt s)) = matchHistory s"
    using find_match_pair [OF v refl nf wq cfg(1), of mid now] by simp_all
  have "two_player_match ?m" using ck cfg(2,3) by (rule new_match_two_player)
  with assms a h set_map_set [of mid ?m "activeMatches s"] show ?thesis
    unfolding stored_ok_def by auto
next
  case False
  then have "activeMatches (snd (find_match mid now g pid copt s)) = activeMatches s
      \<and> matchHistory (snd (find_match mid now g pid copt s)) = matchHistory s"
    by (auto simp: find_match_def Let_def split: option.splits list.splits)
  with assms show ?thesis unfolding stored_ok_def by simp
qed


lemma stored_ok_score:
  assumes "stored_ok s"
  shows "stored_ok (snd (submit_score now matchId pid parsed s))"
proof (cases "\<exists>st. fst (submit_score now matchId pid parsed s) = Inr st")
  case False
  then have "snd (submit_score now matchId pid parsed s) = s"
    by (auto simp: submit_score_def Let_def split: option.splits)
  with assms show ?thesis by simp
next
  case True
  then obtain m i where m: "map_of (activeMatches s) matchId = Some m"
    and s': "snd (submit_score now matchId pid parsed s) =
       s\<lparr>activeMatches := map_set matchId
            (m\<lparr>m_players := (m_players m)[i := (m_players m ! i)
                 \<lparr>p_score := Math_max0 parsed, p_lastUpdate := Some now\<rparr>]\<rparr>) (activeMatches s)\<rparr>"
    by (auto simp: submit_score_def Let_def split: option.splits if_splits)
  from m have "(matchId, m) \<in> set (activeMatches s)" by (rule map_of_SomeD)
  with assms have "two_player_match m" unfolding stored_ok_def by force
  then have "two_player_match (m\<lparr>m_players := (m_players m)[i := (m_players m ! i)
                 \<lparr>p_score := Math_max0 parsed, p_lastUpdate := Some now\<rparr>]\<rparr>)"
    by (simp add: two_player_match_def)
  with assms s' show ?thesis
    using set_map_set [of matchId "m\<lparr>m_players := (m_players m)[i := (m_players m ! i)
                 \<lparr>p_score := Math_max0 parsed, p_lastUpdate := Some now\<rparr>]\<rparr>" "activeMatches s"]
    unfolding stored_ok_def by auto
qed

lemma stored_ok_move:
  assumes "stored_ok s" and "map_of (activeMatches s) matchId = Some m"
    and "m_players m' = m_players m" "m_duration m' = m_duration m" "m_betAmount m' = m_betAmount m"
  shows "stored_ok (s\<lparr>matchHistory := (matchHistory s) (matchId \<mapsto> m'),
                      activeMatches := map_delete matchId (activeMatches s)\<rparr>)"
proof -
  from assms(2) have "(matchId, m) \<in> set (activeMatches s)" by (rule map_of_SomeD)
  with assms(1) have "two_player_match m" unfolding stored_ok_def by force
  with assms(3,4,5) have m': "two_player_match m'" by (simp add: two_player_match_def)
  have "ran ((matchHistory s) (matchId \<mapsto> m')) \<subseteq> insert m' (ran (matchHistory s))"
    by (auto simp: ran_def)
  with assms(1) m' show ?thesis
    unfolding stored_ok_def by (auto simp: set_map_delete)
qed

lemma stored_ok_complete:
  assumes "stored_ok s"
  shows "stored_ok (snd (complete_match now matchId s))"
proof (cases "\<exists>r. fst (complete_match now matchId s) = Inr r")
  case False
  then have "snd (complete_match now matchId s) = s"
    by (auto simp: complete_match_def Let_def split: option.splits list.splits if_splits)
  with assms show ?thesis by simp
next
  case True
  then obtain m r where m: "map_of (activeMatches s) matchId = Some m"
    and s': "snd (complete_match now matchId s) =
       s\<lparr>matchHistory := (matchHistory s) (matchId \<mapsto>
             m\<lparr>m_status := m_completed, m_endTime := Some now, m_result := Some r\<rparr>),
         activeMatches := map_delete matchId (activeMatches s)\<rparr>"
    by (auto simp: complete_match_def Let_def split: option.splits list.splits if_splits)
  show ?thesis unfolding s' by (rule stored_ok_move [OF assms m]) simp_all
qed

lemma stored_ok_cancel:
  assumes "stored_ok s"
  shows "stored_ok (snd (cancel_match now matchId pid s))"
proof (cases "\<exists>r. fst (cancel_match now matchId pid s) = Inr r")
  case False
  then have "snd (cancel_match now matchId pid s) = s"
    by (auto simp: cancel_match_def Let_def split: option.splits if_splits)
  with assms show ?thesis by simp
next
  case True
  then obtain m r where m: "map_of (activeMatches s) matchId = Some m"
    and s': "snd (cancel_match now matchId pid s) =
       s\<lparr>matchHistory := (matchHistory s) (matchId \<mapsto>
             m\<lparr>m_status := m_cancelled, m_endTime := Some now,
               m_cancelledBy := Some pid, m_result := Some r\<rparr>),
         activeMatches := map_delete matchId (activeMatches s)\<rparr>"
    by (auto simp: cancel_match_def Let_def split: option.splits if_splits)
  show ?thesis unfolding s' by (rule stored_ok_move [OF assms m]) simp_all
qed

lemma stored_ok_step: "stored_ok s \<Longrightarrow> stored_ok (match_step op s)"
  by (cases op) (simp_all add: stored_ok_find stored_ok_score stored_ok_complete stored_ok_cancel)

lemma stored_matches_two_player: "stored_ok (match_run ops)"
proof (induction ops rule: rev_induct)
  case Nil
  show ?case by (simp add: match_run_def stored_ok_def init_match_state_def)
next
  case (snoc op ops)
  then show ?case by (simp add: match_run_def stored_ok_step)
qed



section \<open>Balances of wallets in a currency of the table\<close>


lemma Math_round_nonneg: "0 \<le> x \<Longrightarrow> 0 \<le> Math_round x"
  unfolding Math_round_def by simp

lemma convert_nonneg:
  assumes "0 \<le> a" and "f \<in> set currency_keys" and "t \<in> set currency_keys"
  shows "nonneg (convertCurrency (Num a) f t)"
proof -
  from rate_of_key [OF assms(2)] obtain rf where rf: "rate_of f = Some rf" "0 < rf" by blast
  from rate_of_key [OF assms(3)] obtain rt where rt: "rate_of t = Some rt" "0 < rt" by blast
  from assms(1) rf(2) rt(2) have "0 \<le> a / rf * rt * 100" by simp
  then have "0 \<le> Math_round (a / rf * rt * 100)" by (rule Math_round_nonneg)
  with rf(1) rt(1) show ?thesis by (simp add: convertCurrency_def nonneg_def)
qed

lemma nonneg_add: "nonneg x \<Longrightarrow> nonneg y \<Longrightarrow> nonneg (js_add x y)"
  by (cases x; cases y) (simp_all add: nonneg_def)

lemma nonneg_sub: "nonneg x \<Longrightarrow> nonneg y \<Longrightarrow> \<not> js_lt x y \<Longrightarrow> nonneg (js_sub x y)"
  by (cases x; cases y) (simp_all add: nonneg_def)

lemma gateway_fees_bound:
  "\<forall>kg \<in> set PAYMENT_GATEWAYS. 0 \<le> pg_fees (snd kg) \<and> pg_fees (snd kg) \<le> 29 / 1000
      \<and> 1 \<le> pg_minDeposit (snd kg)"
  by (simp add: PAYMENT_GATEWAYS_def)

lemma net_nonneg:
  assumes "1 \<le> amount" and "0 \<le> fees" and "fees \<le> 29 / 1000"
  shows "0 \<le> amount - gateway_fee amount fees"
proof -
  have "\<bar>of_int (Math_round (amount * fees * 100)) / 100 - amount * fees\<bar> \<le> 1 / 200"
    by (rule round2_near)
  then have "gateway_fee amount fees \<le> amount * fees + 1 / 200"
    unfolding gateway_fee_def by linarith
  moreover have "amount * fees \<le> amount * (29 / 1000)"
    using assms by (intro mult_left_mono) simp_all
  ultimately show ?thesis using assms(1) by linarith
qed

lemma ran_upd_subset: "ran (m(k \<mapsto> v)) \<subseteq> insert v (ran m)"
  by (auto simp: ran_def)

lemma wallet_inv_create:
  assumes "wallet_inv s"
  shows "wallet_inv (snd (get_or_create now u c s))"
    and "fst (get_or_create now u c s) \<in> ran (userWallets (snd (get_or_create now u c s)))"
    and "depositTimers (snd (get_or_create now u c s)) = depositTimers s"
    and "userWallets (snd (get_or_create now u c s)) u = Some (fst (get_or_create now u c s))"
proof -
  show "wallet_inv (snd (get_or_create now u c s))"
  proof (cases "userWallets s u")
    case None
    have "nonneg (wal_balance (createWallet now u c))" by (simp add: createWallet_def nonneg_def)
    with assms None ran_upd_subset [of "userWallets s" u "createWallet now u c"] show ?thesis
      unfolding wallet_inv_def by (auto simp: get_or_create_new)
  next
    case (Some w)
    with assms show ?thesis by (simp add: get_or_create_existing)
  qed
  show "fst (get_or_create now u c s) \<in> ran (userWallets (snd (get_or_create now u c s)))"
    by (cases "userWallets s u") (auto simp: get_or_create_new get_or_create_existing ran_def)
  show "depositTimers (snd (get_or_create now u c s)) = depositTimers s"
    by (cases "userWallets s u") (auto simp: get_or_create_new get_or_create_existing)
  show "userWallets (snd (get_or_create now u c s)) u = Some (fst (get_or_create now u c s))"
    by (cases "userWallets s u") (auto simp: get_or_create_new get_or_create_existing)
qed

lemma wallet_inv_get:
  assumes "wallet_inv s"
  shows "wallet_inv (snd (get_wallet now u copt s))"
proof (cases "u = []")
  case True
  with assms show ?thesis by (simp add: get_wallet_def)
next
  case False
  then have "snd (get_wallet now u copt s)
     = snd (get_or_create now u (case copt of None \<Rightarrow> ''INR'' | Some c \<Rightarrow> c) s)"
    by (simp add: get_wallet_def Let_def split: prod.splits)
  with wallet_inv_create(1) [OF assms] show ?thesis by simp
qed




lemma find_in_set: "find P xs = Some x \<Longrightarrow> x \<in> set xs"
  by (induction xs) (auto split: if_splits)

lemma wallet_inv_deposit:
  assumes "wallet_inv s"
  shows "wallet_inv (snd (deposit now tid u amount c pm s))"
proof (cases "u = [] \<or> amount < 1 \<or> c \<notin> set currency_keys \<or> pm \<notin> set deposit_methods")
  case True
  with assms show ?thesis by (simp add: deposit_def)
next
  case valid: False
  obtain w s1 where g: "get_or_create now u c s = (w, s1)" by (cases "get_or_create now u c s")
  from wallet_inv_create(1) [OF assms, of now u c] g have s1: "wallet_inv s1" by simp
  show ?thesis
  proof (cases "find (\<lambda>(key, config). c \<in> set (pg_currencies config)
                                       \<and> pm \<in> set (pg_methods config)) PAYMENT_GATEWAYS")
    case None
    with valid g have "snd (deposit now tid u amount c pm s) = s1"
      by (simp add: deposit_def)
    with s1 show ?thesis by simp
  next
    case (Some kg)
    obtain key gw where kg: "kg = (key, gw)" by (cases kg)
    from Some have "kg \<in> set PAYMENT_GATEWAYS" by (rule find_in_set)
    with gateway_fees_bound kg have fb: "0 \<le> pg_fees gw" "pg_fees gw \<le> 29 / 1000" by force+
    show ?thesis
    proof (cases "amount < pg_minDeposit gw \<or> amount > pg_maxDeposit gw")
      case True
      with valid Some kg g have "snd (deposit now tid u amount c pm s) = s1"
        by (simp add: deposit_def)
      with s1 show ?thesis by simp
    next
      case False
      from valid have "1 \<le> amount" by simp
      from net_nonneg [OF this fb] have nn: "nonneg (Num (amount - gateway_fee amount (pg_fees gw)))"
        by (simp add: nonneg_def)
      from valid Some kg False g have
        "userWallets (snd (deposit now tid u amount c pm s)) = userWallets s1"
        "depositTimers (snd (deposit now tid u amount c pm s)) = depositTimers s1 @
                 [\<lparr>dt_transactionId = tid, dt_userId = u, dt_currency = c,
                   dt_netAmount = Num (amount - gateway_fee amount (pg_fees gw))\<rparr>]"
        by (simp_all add: deposit_def Let_def)
      with s1 nn valid show ?thesis
        unfolding wallet_inv_def by auto
    qed
  qed
qed

lemma wallet_inv_callback:
  assumes "wallet_inv s"
  shows "wallet_inv (deposit_callback now s)"
proof (cases "depositTimers s")
  case Nil
  with assms show ?thesis by (simp add: deposit_callback_def)
next
  case (Cons t ts)
  with assms have t: "dt_currency t \<in> set currency_keys" "nonneg (dt_netAmount t)"
    and ts: "\<forall>t \<in> set ts. dt_currency t \<in> set currency_keys \<and> nonneg (dt_netAmount t)"
    and ws: "\<forall>w \<in> ran (userWallets s). wal_currency w \<in> set currency_keys
               \<longrightarrow> nonneg (wal_balance w)"
    unfolding wallet_inv_def by simp_all
  show ?thesis
  proof (cases "userWallets s (dt_userId t)")
    case None
    with Cons have "deposit_callback now s = s\<lparr>depositTimers := ts\<rparr>"
      by (simp add: deposit_callback_def)
    with ts ws show ?thesis unfolding wallet_inv_def by simp
  next
    case (Some w)
    let ?amt = "if dt_currency t = wal_currency w then dt_netAmount t
                else convertCurrency (dt_netAmount t) (dt_currency t) (wal_currency w)"
    let ?w' = "w\<lparr>wal_balance := js_add (wal_balance w) ?amt,
                 wal_totalDeposits := js_add (wal_totalDeposits w) ?amt,
                 wal_lastActivity := now\<rparr>"
    from Cons Some have u: "userWallets (deposit_callback now s) = (userWallets s) (dt_userId t \<mapsto> ?w')"
      and d: "depositTimers (deposit_callback now s) = ts"
      by (simp_all add: deposit_callback_def Let_def)
    have w': "nonneg (wal_balance ?w')" if k: "wal_currency w \<in> set currency_keys"
    proof -
      from Some have "w \<in> ran (userWallets s)" by (auto simp: ran_def)
      with ws k have b: "nonneg (wal_balance w)" by blast
      obtain n where n: "dt_netAmount t = Num n" "0 \<le> n"
        using t(2) by (cases "dt_netAmount t") (simp_all add: nonneg_def)
      have "nonneg ?amt"
        using t(2) convert_nonneg [OF n(2) t(1) k] n(1) by simp
      with b show ?thesis by (simp add: nonneg_add)
    qed
    have "\<forall>x \<in> ran (userWallets (deposit_callback now s)).
            wal_currency x \<in> set currency_keys \<longrightarrow> nonneg (wal_balance x)"
    proof
      fix x assume "x \<in> ran (userWallets (deposit_callback now s))"
      with u ran_upd_subset [of "userWallets s" "dt_userId t" ?w']
      have "x = ?w' \<or> x \<in> ran (userWallets s)" by auto
      then show "wal_currency x \<in> set currency_keys \<longrightarrow> nonneg (wal_balance x)"
      proof
        assume "x = ?w'"
        with w' show ?thesis by simp
      next
        assume "x \<in> ran (userWallets s)"
        with ws show ?thesis by blast
      qed
    qed
    with d ts show ?thesis unfolding wallet_inv_def by simp
  qed
qed




lemma wallet_inv_update:
  assumes "wallet_inv s" and "wal_currency w' \<in> set currency_keys \<longrightarrow> nonneg (wal_balance w')"
    and "userWallets s' = (userWallets s) (u \<mapsto> w')" and "depositTimers s' = depositTimers s"
  shows "wallet_inv s'"
proof -
  have "\<forall>x \<in> ran (userWallets s'). wal_currency x \<in> set currency_keys \<longrightarrow> nonneg (wal_balance x)"
  proof
    fix x assume "x \<in> ran (userWallets s')"
    with assms(3) ran_upd_subset [of "userWallets s" u w']
    have "x = w' \<or> x \<in> ran (userWallets s)" by auto
    with assms(1,2) show "wal_currency x \<in> set currency_keys \<longrightarrow> nonneg (wal_balance x)"
      unfolding wallet_inv_def by blast
  qed
  with assms(1,4) show ?thesis unfolding wallet_inv_def by simp
qed

lemma wallet_inv_withdraw:
  assumes "wallet_inv s"
  shows "wallet_inv (snd (withdraw now tid u amount copt wm s))"
proof (cases "\<exists>tx. fst (withdraw now tid u amount copt wm s) = Inr tx")
  case False
  then have "snd (withdraw now tid u amount copt wm s) = s"
    by (auto simp: withdraw_def Let_def split: option.splits if_splits prod.splits)
  with assms show ?thesis by simp
next
  case True
  then have valid: "1 \<le> amount" "case copt of None \<Rightarrow> True | Some c \<Rightarrow> c \<in> set currency_keys"
    by (auto simp: withdraw_def split: if_splits option.splits)
  from True obtain w where w: "userWallets s u = Some w"
    by (auto simp: withdraw_def Let_def split: option.splits if_splits)
  let ?wc = "case copt of None \<Rightarrow> wal_currency w
             | Some c \<Rightarrow> if c = [] then wal_currency w else c"
  let ?amt = "if ?wc = wal_currency w then Num amount
              else convertCurrency (Num amount) ?wc (wal_currency w)"
  let ?w' = "w\<lparr>wal_balance := js_sub (wal_balance w) ?amt, wal_lastActivity := now\<rparr>"
  from True w have chk: "\<not> js_lt (wal_balance w) ?amt"
    by (auto simp: withdraw_def Let_def split: option.splits if_splits)
  from True w have u: "userWallets (snd (withdraw now tid u amount copt wm s))
                        = (userWallets s) (u \<mapsto> ?w')"
    and d: "depositTimers (snd (withdraw now tid u amount copt wm s)) = depositTimers s"
    by (auto simp: withdraw_def Let_def split: option.splits if_splits prod.splits)
  have "nonneg (wal_balance ?w')" if k: "wal_currency w \<in> set currency_keys"
  proof -
    from w have "w \<in> ran (userWallets s)" by (auto simp: ran_def)
    with assms k have b: "nonneg (wal_balance w)" unfolding wallet_inv_def by blast
    have wc: "?wc \<in> set currency_keys"
      using valid(2) k by (cases copt) auto
    from valid(1) have a0: "0 \<le> amount" by simp
    have "nonneg ?amt"
      using convert_nonneg [OF a0 wc k] a0 by (simp add: nonneg_def)
    with b chk show ?thesis by (simp add: nonneg_sub)
  qed
  then have "wal_currency ?w' \<in> set currency_keys \<longrightarrow> nonneg (wal_balance ?w')" by simp
  from wallet_inv_update [OF assms this u d] show ?thesis .
qed

lemma wallet_inv_winnings:
  assumes "wallet_inv s"
  shows "wallet_inv (snd (process_winnings now tid mid u amount c fee s))"
proof (cases "mid = [] \<or> u = [] \<or> amount < 0 \<or> c \<notin> set currency_keys \<or> fee < 0")
  case True
  with assms show ?thesis by (simp add: process_winnings_def)
next
  case valid: False
  obtain w s1 where g: "get_or_create now u c s = (w, s1)" by (cases "get_or_create now u c s")
  note c1 = wallet_inv_create [OF assms, of now u c]
  from c1(1) g have s1: "wallet_inv s1" by simp
  from c1(2) g have wr: "w \<in> ran (userWallets s1)" by simp
  let ?amt = "if c = wal_currency w then Num amount
              else convertCurrency (Num amount) c (wal_currency w)"
  let ?w' = "w\<lparr>wal_balance := js_add (wal_balance w) ?amt,
                 wal_totalWinnings := js_add (wal_totalWinnings w) ?amt,
                 wal_lastActivity := now\<rparr>"
  from valid g have u: "userWallets (snd (process_winnings now tid mid u amount c fee s))
                        = (userWallets s1) (u \<mapsto> ?w')"
    and d: "depositTimers (snd (process_winnings now tid mid u amount c fee s)) = depositTimers s1"
    by (simp_all add: process_winnings_def Let_def)
  have "nonneg (wal_balance ?w')" if k: "wal_currency w \<in> set currency_keys"
  proof -
    from s1 wr k have b: "nonneg (wal_balance w)" unfolding wallet_inv_def by blast
    from valid have a0: "0 \<le> amount" and ck: "c \<in> set currency_keys" by simp_all
    have "nonneg ?amt"
      using convert_nonneg [OF a0 ck k] a0 by (simp add: nonneg_def)
    with b show ?thesis by (simp add: nonneg_add)
  qed
  then have "wal_currency ?w' \<in> set currency_keys \<longrightarrow> nonneg (wal_balance ?w')" by simp
  from wallet_inv_update [OF s1 this u d] show ?thesis .
qed

lemma wallet_inv_step: "wallet_inv s \<Longrightarrow> wallet_inv (wallet_step op s)"
  by (cases op)
     (simp_all add: wallet_inv_get wallet_inv_deposit wallet_inv_callback wallet_inv_withdraw
        wallet_inv_winnings)

text \<open>
  After any run of the wallet operations, a wallet whose native currency is in the rate
  table has a non-negative balance: the balance of claim C9 is lost only through a
  wallet created by \<open>GET /:userId\<close> with a currency outside the table.
\<close>

lemma supported_balance_nonneg:
  assumes "userWallets (wallet_run ops) u = Some w" and "wal_currency w \<in> set currency_keys"
  shows "nonneg (wal_balance w)"
proof -
  have "wallet_inv (wallet_run ops)"
  proof (induction ops rule: rev_induct)
    case Nil
    show ?case by (simp add: wallet_run_def wallet_inv_def init_wallet_state_def)
  next
    case (snoc op ops)
    then show ?case by (simp add: wallet_run_def wallet_inv_step)
  qed
  moreover from assms(1) have "w \<in> ran (userWallets (wallet_run ops))" by (auto simp: ran_def)
  ultimately show ?thesis using assms(2) unfolding wallet_inv_def by blast
qed


end
